theory Spec2Isabelle
  imports
    Complex_Main
    "HOL-Library.AList"
    "HOL-Library.Char_ord"
    "HOL-Library.List_Lexorder"
    "HOL-Library.Product_Lexorder"
    "HOL-Library.Multiset"
begin

section \<open>Values of the Figma response\<close>

text \<open>
  The scripts work on whatever \<^verbatim>\<open>response.json()\<close> returns: \<^verbatim>\<open>None\<close>, booleans,
  integers, floats, strings, lists and dicts. A dict is the list of its items in
  insertion order; its keys are pairwise distinct, as in Python, and a lookup is
  \<^const>\<open>map_of\<close>. Integers are unbounded, as Python's are.

  Two idealisations. A float is an exact real number (no rounding of products, no NaN,
  no infinity). A string is a list of 8-bit characters read as the code points 0 to 255;
  code points above 255 are outside the model.
\<close>

datatype json =
    JNull
  | JBool bool
  | JInt int
  | JFloat real
  | JStr string
  | JArr "json list"
  | JObj "(string \<times> json) list"

datatype pyerr = KeyError | TypeError | AttributeError | ValueError | ConnectionError

text \<open>
  Two built-ins of Python are parameters of the model, since their text and parsing
  rules are not part of the scripts: \<open>str_of\<close> is \<^verbatim>\<open>str()\<close> on floats, lists and
  dicts, and \<open>int_of_str\<close> is \<^verbatim>\<open>int()\<close> on a string (\<open>None\<close> when it raises
  ValueError). Every theorem below holds for all values of both.
\<close>

record builtins =
  str_of :: "json \<Rightarrow> string"
  int_of_str :: "string \<Rightarrow> int option"

subsection \<open>Python operations on these values\<close>

text \<open>Truth value of an object, as \<^verbatim>\<open>if x:\<close> and \<^verbatim>\<open>not x\<close> test it.\<close>

fun py_truthy :: "json \<Rightarrow> bool" where
  "py_truthy JNull = False"
| "py_truthy (JBool b) = b"
| "py_truthy (JInt i) = (i \<noteq> 0)"
| "py_truthy (JFloat x) = (x \<noteq> 0)"
| "py_truthy (JStr s) = (s \<noteq> [])"
| "py_truthy (JArr xs) = (xs \<noteq> [])"
| "py_truthy (JObj kvs) = (kvs \<noteq> [])"

text \<open>\<^verbatim>\<open>v[k]\<close> with a string key: only a dict can answer; a missing key is KeyError.\<close>

fun py_getitem :: "json \<Rightarrow> string \<Rightarrow> pyerr + json" where
  "py_getitem (JObj kvs) k = (case map_of kvs k of None \<Rightarrow> Inl KeyError | Some v \<Rightarrow> Inr v)"
| "py_getitem _ k = Inl TypeError"

text \<open>\<^verbatim>\<open>v.get(k, d)\<close>: only a dict has the method.\<close>

fun py_get :: "json \<Rightarrow> string \<Rightarrow> json \<Rightarrow> pyerr + json" where
  "py_get (JObj kvs) k d = (case map_of kvs k of None \<Rightarrow> Inr d | Some v \<Rightarrow> Inr v)"
| "py_get _ k d = Inl AttributeError"

fun is_prefix :: "string \<Rightarrow> string \<Rightarrow> bool" where
  "is_prefix [] s = True"
| "is_prefix (p # ps) [] = False"
| "is_prefix (p # ps) (c # cs) = (p = c \<and> is_prefix ps cs)"

fun is_substring :: "string \<Rightarrow> string \<Rightarrow> bool" where
  "is_substring p [] = (p = [])"
| "is_substring p (c # cs) = (is_prefix p (c # cs) \<or> is_substring p cs)"

text \<open>
  \<^verbatim>\<open>k in v\<close> with a string \<open>k\<close>: a key of a dict, an element of a list, a substring
  of a string; the other values are not containers.
\<close>

fun py_contains :: "string \<Rightarrow> json \<Rightarrow> pyerr + bool" where
  "py_contains k (JObj kvs) = Inr (k \<in> fst ` set kvs)"
| "py_contains k (JArr xs) = Inr (JStr k \<in> set xs)"
| "py_contains k (JStr s) = Inr (is_substring k s)"
| "py_contains k _ = Inl TypeError"

text \<open>
  What a \<^verbatim>\<open>for\<close> loop visits: the elements of a list, the keys of a dict, the
  one-character strings of a string.
\<close>

fun py_iter :: "json \<Rightarrow> pyerr + json list" where
  "py_iter (JArr xs) = Inr xs"
| "py_iter (JObj kvs) = Inr (map (\<lambda>kv. JStr (fst kv)) kvs)"
| "py_iter (JStr s) = Inr (map (\<lambda>c. JStr [c]) s)"
| "py_iter _ = Inl TypeError"

text \<open>\<^verbatim>\<open>round(x)\<close> on a float: to the nearest integer, a tie to the even one.\<close>

definition py_round :: "real \<Rightarrow> int" where
  "py_round x =
     (let f = \<lfloor>x\<rfloor>; d = x - of_int f
      in if d < 1 / 2 then f else if 1 / 2 < d then f + 1 else if even f then f else f + 1)"

text \<open>
  \<^verbatim>\<open>round(v * 255)\<close>. A bool counts as 0 or 1. A string or a list times 255 is a
  longer string or list, which \<^verbatim>\<open>round\<close> rejects; \<^verbatim>\<open>None\<close> and a dict reject
  the product.
\<close>

fun round_255 :: "json \<Rightarrow> pyerr + int" where
  "round_255 (JInt i) = Inr (i * 255)"
| "round_255 (JBool b) = Inr (if b then 255 else 0)"
| "round_255 (JFloat x) = Inr (py_round (x * 255))"
| "round_255 _ = Inl TypeError"

text \<open>\<^verbatim>\<open>int(v)\<close>: a float is truncated towards zero.\<close>

fun py_int :: "builtins \<Rightarrow> json \<Rightarrow> pyerr + int" where
  "py_int py (JInt i) = Inr i"
| "py_int py (JBool b) = Inr (if b then 1 else 0)"
| "py_int py (JFloat x) = Inr (if 0 \<le> x then \<lfloor>x\<rfloor> else \<lceil>x\<rceil>)"
| "py_int py (JStr s) = (case int_of_str py s of None \<Rightarrow> Inl ValueError | Some i \<Rightarrow> Inr i)"
| "py_int py _ = Inl TypeError"

subsection \<open>Numbers as text\<close>

definition digit_char :: "nat \<Rightarrow> char" where
  "digit_char d = ''0123456789ABCDEF'' ! d"

function show_nat :: "nat \<Rightarrow> string" where
  "show_nat n = (if n < 10 then [digit_char n] else show_nat (n div 10) @ [digit_char (n mod 10)])"
  by pat_completeness auto
termination
  by (relation "measure id") auto

declare show_nat.simps [simp del]

text \<open>\<^verbatim>\<open>str(i)\<close> of an integer, which is what \<^verbatim>\<open>{i}\<close> in an f-string gives.\<close>

definition show_int :: "int \<Rightarrow> string" where
  "show_int i = (if i < 0 then CHR ''-'' # show_nat (nat (- i)) else show_nat (nat i))"

function hex_nat :: "nat \<Rightarrow> string" where
  "hex_nat n = (if n < 16 then [digit_char n] else hex_nat (n div 16) @ [digit_char (n mod 16)])"
  by pat_completeness auto
termination
  by (relation "measure id") auto

declare hex_nat.simps [simp del]

text \<open>
  The format \<^verbatim>\<open>{:02X}\<close> of an integer: upper-case hexadecimal, filled with zeros to
  two characters, the sign counted in the width.
\<close>

definition fmt_02X :: "int \<Rightarrow> string" where
  "fmt_02X i =
     (if i < 0 then CHR ''-'' # hex_nat (nat (- i))
      else (let h = hex_nat (nat i) in if length h < 2 then CHR ''0'' # h else h))"

text \<open>\<^verbatim>\<open>str(v)\<close>, which is what \<^verbatim>\<open>{v}\<close> in an f-string gives.\<close>

fun py_str :: "builtins \<Rightarrow> json \<Rightarrow> string" where
  "py_str py (JInt i) = show_int i"
| "py_str py (JStr s) = s"
| "py_str py (JBool b) = (if b then ''True'' else ''False'')"
| "py_str py JNull = ''None''"
| "py_str py v = str_of py v"

section \<open>Colour converters\<close>

definition rgb_to_hex :: "json \<Rightarrow> json \<Rightarrow> json \<Rightarrow> pyerr + string" where
  "rgb_to_hex r g b =
     (case round_255 r of Inl e \<Rightarrow> Inl e | Inr r' \<Rightarrow>
      (case round_255 g of Inl e \<Rightarrow> Inl e | Inr g' \<Rightarrow>
       (case round_255 b of Inl e \<Rightarrow> Inl e | Inr b' \<Rightarrow>
          Inr (fmt_02X r' @ fmt_02X g' @ fmt_02X b'))))"

definition rgba_channel :: "json \<Rightarrow> string \<Rightarrow> pyerr + int" where
  "rgba_channel rgba k =
     (case py_getitem rgba k of Inl e \<Rightarrow> Inl e | Inr v \<Rightarrow> round_255 v)"

definition rgba_to_hex :: "json \<Rightarrow> pyerr + string" where
  "rgba_to_hex rgba =
     (case rgba_channel rgba ''r'' of Inl e \<Rightarrow> Inl e | Inr r \<Rightarrow>
      (case rgba_channel rgba ''g'' of Inl e \<Rightarrow> Inl e | Inr g \<Rightarrow>
       (case rgba_channel rgba ''b'' of Inl e \<Rightarrow> Inl e | Inr b \<Rightarrow>
          Inr (fmt_02X r @ fmt_02X g @ fmt_02X b))))"


section \<open>Text-style extraction\<close>

text \<open>
  The generator \<^verbatim>\<open>next((f for f in fills if f['type']=="SOLID"), None)\<close> reads the
  fills in order and stops at the first solid one; a fill before it that has no
  \<^verbatim>\<open>type\<close> raises.
\<close>

fun first_solid :: "json list \<Rightarrow> pyerr + json option" where
  "first_solid [] = Inr None"
| "first_solid (f # fs) =
     (case py_getitem f ''type'' of Inl e \<Rightarrow> Inl e
      | Inr t \<Rightarrow> if t = JStr ''SOLID'' then Inr (Some f) else first_solid fs)"

definition text_color :: "json \<Rightarrow> pyerr + string" where
  "text_color fills =
     (if py_truthy fills then
        (case py_iter fills of Inl e \<Rightarrow> Inl e | Inr fs \<Rightarrow>
         (case first_solid fs of Inl e \<Rightarrow> Inl e
          | Inr None \<Rightarrow> Inr ''000000''
          | Inr (Some solid_fill) \<Rightarrow>
              if py_truthy solid_fill then
                (case py_getitem solid_fill ''color'' of Inl e \<Rightarrow> Inl e
                 | Inr c \<Rightarrow> rgba_to_hex c)
              else Inr ''000000''))
      else Inr ''000000'')"

text \<open>The body of the \<^verbatim>\<open>try\<close> block of \<^verbatim>\<open>parse_text_style\<close>.\<close>

definition text_style_body :: "builtins \<Rightarrow> json \<Rightarrow> pyerr + (json \<times> json \<times> int \<times> string)" where
  "text_style_body py node =
     (case py_getitem node ''style'' of Inl e \<Rightarrow> Inl e | Inr style \<Rightarrow>
      (case py_get style ''fontFamily'' JNull of Inl e \<Rightarrow> Inl e | Inr fam \<Rightarrow>
       (case py_get style ''fontWeight'' (JInt 400) of Inl e \<Rightarrow> Inl e | Inr weight \<Rightarrow>
        (case py_get style ''fontSize'' (JInt 14) of Inl e \<Rightarrow> Inl e | Inr sz \<Rightarrow>
         (case py_int py sz of Inl e \<Rightarrow> Inl e | Inr size_int \<Rightarrow>
          (case py_get node ''fills'' (JArr []) of Inl e \<Rightarrow> Inl e | Inr fills \<Rightarrow>
           (case text_color fills of Inl e \<Rightarrow> Inl e | Inr col \<Rightarrow>
              Inr (if \<not> py_truthy fam then JStr ''FontNotFound'' else fam,
                   weight, size_int, col))))))))"

text \<open>
  \<^verbatim>\<open>parse_text_style\<close>: the \<^verbatim>\<open>except Exception\<close> clause turns every exception of
  the body into the fallback tuple. The warnings it prints are not modelled.
\<close>

definition parse_text_style :: "builtins \<Rightarrow> json \<Rightarrow> json \<times> json \<times> int \<times> string" where
  "parse_text_style py node =
     (case text_style_body py node of
        Inl e \<Rightarrow> (JStr ''FontNotFound'', JInt 400, 14, ''000000'')
      | Inr t \<Rightarrow> t)"

section \<open>Tree walker\<close>

text \<open>
  \<^verbatim>\<open>\W\<close> of Python's \<^verbatim>\<open>re\<close> on a string pattern: everything but the alphanumeric
  characters and the underscore. Below 256 the alphanumerics are the ASCII letters and
  digits and the Latin-1 letters, superscript digits and fractions.
\<close>

definition is_word :: "char \<Rightarrow> bool" where
  "is_word c =
     (let n = (of_char c :: nat)
      in (48 \<le> n \<and> n \<le> 57) \<or> (65 \<le> n \<and> n \<le> 90) \<or> n = 95 \<or> (97 \<le> n \<and> n \<le> 122)
         \<or> n \<in> {170, 178, 179, 181, 185, 186, 188, 189, 190}
         \<or> (192 \<le> n \<and> n \<le> 214) \<or> (216 \<le> n \<and> n \<le> 246) \<or> 248 \<le> n)"

text \<open>\<^verbatim>\<open>re.sub(r'\W+', '', s)\<close>: every run of non-word characters is removed.\<close>

definition sanitize :: "string \<Rightarrow> string" where
  "sanitize s = filter is_word s"

record style_def =
  name :: string
  fontFamily :: string
  color :: string
  fontSize :: int
  fontWeight :: json

text \<open>
  The two scripts differ in the name they give a style:
  \<^verbatim>\<open>f"text{fontSize}c{color}w{fontWeight}{fontName}"\<close> in \<^verbatim>\<open>main.py\<close> and
  \<^verbatim>\<open>f"textStyle{fontSize}c{color}{fontName}{fontWeight}"\<close> in
  \<^verbatim>\<open>import_colors_and_text_font_styles_by_id.py\<close>.
\<close>

datatype script = Main_py | By_id_py

fun style_name :: "script \<Rightarrow> builtins \<Rightarrow> int \<Rightarrow> string \<Rightarrow> json \<Rightarrow> string \<Rightarrow> string" where
  "style_name Main_py py sz col weight fontName =
     ''text'' @ show_int sz @ ''c'' @ col @ ''w'' @ py_str py weight @ fontName"
| "style_name By_id_py py sz col weight fontName =
     ''textStyle'' @ show_int sz @ ''c'' @ col @ fontName @ py_str py weight"

text \<open>\<^verbatim>\<open>f"{fontSize}_{color}_{fontWeight}_{fontName}"\<close>, the same in both scripts.\<close>

definition style_key :: "builtins \<Rightarrow> int \<Rightarrow> string \<Rightarrow> json \<Rightarrow> string \<Rightarrow> string" where
  "style_key py sz col weight fontName =
     show_int sz @ ''_'' @ col @ ''_'' @ py_str py weight @ ''_'' @ fontName"

text \<open>The three collections the closure \<^verbatim>\<open>parse_node\<close> writes to.\<close>

record walk_state =
  colors :: "(string \<times> string) list"
  text_styles :: "style_def list"
  unique_styles :: "string set"

definition init_state :: walk_state where
  "init_state = \<lparr>colors = [], text_styles = [], unique_styles = {}\<rparr>"

text \<open>
  The loop over \<^verbatim>\<open>node["fills"]\<close>. \<^verbatim>\<open>colors[color_name] = color_value\<close> keeps the
  place of a key that is already there and appends a new one.
\<close>

fun add_fills :: "json list \<Rightarrow> (string \<times> string) list \<Rightarrow> pyerr + (string \<times> string) list" where
  "add_fills [] cols = Inr cols"
| "add_fills (fill # rest) cols =
     (case py_getitem fill ''type'' of Inl e \<Rightarrow> Inl e
      | Inr t \<Rightarrow>
          if t = JStr ''SOLID'' then
            (case py_getitem fill ''color'' of Inl e \<Rightarrow> Inl e | Inr c \<Rightarrow>
             (case py_getitem c ''r'' of Inl e \<Rightarrow> Inl e | Inr r \<Rightarrow>
              (case py_getitem c ''g'' of Inl e \<Rightarrow> Inl e | Inr g \<Rightarrow>
               (case py_getitem c ''b'' of Inl e \<Rightarrow> Inl e | Inr b \<Rightarrow>
                (case rgb_to_hex r g b of Inl e \<Rightarrow> Inl e
                 | Inr hex_code \<Rightarrow>
                     add_fills rest
                       (AList.update (''c'' @ hex_code) (''#'' @ hex_code) cols))))))
          else add_fills rest cols)"

text \<open>The block \<^verbatim>\<open>if "fills" in node: for fill in node["fills"]: ...\<close>.\<close>

definition extract_colors :: "json \<Rightarrow> (string \<times> string) list \<Rightarrow> pyerr + (string \<times> string) list" where
  "extract_colors node cols =
     (case py_contains ''fills'' node of Inl e \<Rightarrow> Inl e
      | Inr has \<Rightarrow>
          if has then
            (case py_getitem node ''fills'' of Inl e \<Rightarrow> Inl e | Inr v \<Rightarrow>
             (case py_iter v of Inl e \<Rightarrow> Inl e | Inr fills \<Rightarrow> add_fills fills cols))
          else Inr cols)"

text \<open>
  The style definition of a TEXT node and its key. \<^verbatim>\<open>re.sub\<close> raises TypeError on
  a font family that is not a string.
\<close>

definition text_entry :: "script \<Rightarrow> builtins \<Rightarrow> json \<Rightarrow> pyerr + (string \<times> style_def)" where
  "text_entry sc py node =
     (case parse_text_style py node of
        (fam, weight, sz, col) \<Rightarrow>
          (case fam of
             JStr family \<Rightarrow>
               Inr (style_key py sz col weight (sanitize family),
                    \<lparr>name = style_name sc py sz col weight (sanitize family),
                     fontFamily = family, color = col, fontSize = sz, fontWeight = weight\<rparr>)
           | _ \<Rightarrow> Inl TypeError))"

text \<open>The block \<^verbatim>\<open>if node.get('type') == "TEXT": ...\<close>.\<close>

definition extract_text_style :: "script \<Rightarrow> builtins \<Rightarrow> json \<Rightarrow> walk_state \<Rightarrow> pyerr + walk_state" where
  "extract_text_style sc py node st =
     (case py_get node ''type'' JNull of Inl e \<Rightarrow> Inl e
      | Inr t \<Rightarrow>
          if t = JStr ''TEXT'' then
            (case text_entry sc py node of Inl e \<Rightarrow> Inl e
             | Inr (k, d) \<Rightarrow>
                 if k \<notin> unique_styles st then
                   Inr (st\<lparr>text_styles := text_styles st @ [d],
                           unique_styles := insert k (unique_styles st)\<rparr>)
                 else Inr st)
          else Inr st)"

text \<open>The children a node hands to the recursion: \<^verbatim>\<open>node["children"]\<close> when present.\<close>

definition children_of :: "json \<Rightarrow> pyerr + json list" where
  "children_of node =
     (case py_contains ''children'' node of Inl e \<Rightarrow> Inl e
      | Inr has \<Rightarrow>
          if has then
            (case py_getitem node ''children'' of Inl e \<Rightarrow> Inl e | Inr v \<Rightarrow> py_iter v)
          else Inr [])"

text \<open>
  A measure for the recursion: only a dict can have children, and what it hands on is
  smaller than itself.
\<close>

fun dict_size :: "json \<Rightarrow> nat" where
  "dict_size (JObj kvs) = size (JObj kvs)"
| "dict_size _ = 0"

lemma dict_size_le: "dict_size v \<le> size v"
  by (cases v) simp_all

lemma map_of_size: "map_of kvs k = Some v \<Longrightarrow> size v < size (JObj kvs)"
  by (induction kvs) (auto split: if_splits)

lemma dict_size_keys: "sum_list (map dict_size (map (\<lambda>kv. JStr (fst kv)) kvs)) = 0"
  by (induction kvs) simp_all

lemma dict_size_chars: "sum_list (map dict_size (map (\<lambda>c. JStr [c]) s)) = 0"
  by (induction s) simp_all

lemma dict_size_elems: "sum_list (map dict_size ys) \<le> size_list size ys"
  by (induction ys) (auto intro: le_SucI add_mono dict_size_le)

lemma py_iter_size: "py_iter v = Inr xs \<Longrightarrow> sum_list (map dict_size xs) \<le> size v"
proof (cases v)
  case (JArr ys)
  assume "py_iter v = Inr xs"
  with JArr have "xs = ys" by simp
  then show ?thesis using JArr dict_size_elems [of ys] by simp
next
  case (JObj kvs)
  assume "py_iter v = Inr xs"
  with JObj have "xs = map (\<lambda>kv. JStr (fst kv)) kvs" by simp
  then have "sum_list (map dict_size xs) = 0" by (simp only: dict_size_keys)
  then show ?thesis by (simp only: le0)
next
  case (JStr s)
  assume "py_iter v = Inr xs"
  with JStr have "xs = map (\<lambda>c. JStr [c]) s" by simp
  then have "sum_list (map dict_size xs) = 0" by (simp only: dict_size_chars)
  then show ?thesis by (simp only: le0)
qed simp_all

lemma children_of_size:
  assumes "children_of node = Inr xs" and "xs \<noteq> []"
  shows "sum_list (map dict_size xs) < dict_size node"
proof (cases node)
  case (JObj kvs)
  from assms JObj obtain v where v: "map_of kvs ''children'' = Some v" and it: "py_iter v = Inr xs"
    by (auto simp: children_of_def split: if_splits option.splits sum.splits)
  from it have "sum_list (map dict_size xs) \<le> size v" by (rule py_iter_size)
  also from v have "\<dots> < size (JObj kvs)" by (rule map_of_size)
  finally show ?thesis using JObj by simp
qed (use assms in \<open>auto simp: children_of_def split: if_splits sum.splits\<close>)

text \<open>
  \<^verbatim>\<open>parse_node\<close>: the fills of the node, then its text style, then the children in
  order, each with the whole subtree below it. An exception ends the walk; the state is
  lost with it.
\<close>

function parse_node :: "script \<Rightarrow> builtins \<Rightarrow> json \<Rightarrow> walk_state \<Rightarrow> pyerr + walk_state"
  and parse_children :: "script \<Rightarrow> builtins \<Rightarrow> json list \<Rightarrow> walk_state \<Rightarrow> pyerr + walk_state"
where
  "parse_node sc py node st =
     (case extract_colors node (colors st) of Inl e \<Rightarrow> Inl e
      | Inr cols \<Rightarrow>
         (case extract_text_style sc py node (st\<lparr>colors := cols\<rparr>) of Inl e \<Rightarrow> Inl e
          | Inr st' \<Rightarrow>
             (case children_of node of Inl e \<Rightarrow> Inl e
              | Inr cs \<Rightarrow> parse_children sc py cs st')))"
| "parse_children sc py [] st = Inr st"
| "parse_children sc py (child # rest) st =
     (case parse_node sc py child st of Inl e \<Rightarrow> Inl e
      | Inr st' \<Rightarrow> parse_children sc py rest st')"
  by pat_completeness auto
termination
proof (relation "measures
    [\<lambda>x. case x of Inl (sc, py, node, st) \<Rightarrow> dict_size node
                  | Inr (sc, py, cs, st) \<Rightarrow> sum_list (map dict_size cs),
     \<lambda>x. case x of Inl (sc, py, node, st) \<Rightarrow> 1
                  | Inr (sc, py, cs, st) \<Rightarrow> 2 * length cs]", goal_cases)
  case 1
  show ?case by simp
next
  case (2 sc py node st cols st' cs)
  show ?case
  proof (cases "cs = []")
    case True
    then show ?thesis by auto
  next
    case False
    with 2 show ?thesis using children_of_size by auto
  qed
next
  case (3 sc py child rest st)
  have "0 < sum_list (map dict_size rest) \<or> sum_list (map dict_size rest) = 0"
    by arith
  then show ?case by (auto simp del: sum_list_eq_0_iff)
next
  case (4 sc py child rest st st')
  have "0 < dict_size child \<or> dict_size child = 0"
    by arith
  then show ?case by auto
qed


section \<open>Renderers\<close>

subsection \<open>Colour stylesheet\<close>

text \<open>
  \<^verbatim>\<open>sorted(colors.items())\<close> orders the pairs of strings: strings are compared
  character by character by code point, a proper prefix first, which is the order of
  the theory \<^verbatim>\<open>List_Lexorder\<close> on \<^verbatim>\<open>Char_ord\<close>; pairs by the
  first component, then the second.
\<close>

definition sorted_colors :: "(string \<times> string) list \<Rightarrow> (string \<times> string) list" where
  "sorted_colors cols = sort cols"

definition color_line :: "string \<times> string \<Rightarrow> string" where
  \<open>color_line kv = ''  <color name="'' @ fst kv @ ''">'' @ snd kv @ ''</color>\<newline>''\<close>

text \<open>The text \<^verbatim>\<open>save_colors_xml\<close> writes to \<^verbatim>\<open>colors.xml\<close>.\<close>

definition save_colors_xml :: "(string \<times> string) list \<Rightarrow> string" where
  \<open>save_colors_xml cols =
     ''<?xml version="1.0" encoding="UTF-8"?>\<newline><colors>\<newline>''
     @ concat (map color_line (sorted_colors cols))
     @ ''</colors>\<newline>''\<close>

subsection \<open>Text styles\<close>

text \<open>Numbers compare by value, whatever their type; a bool is 0 or 1.\<close>

fun py_num :: "json \<Rightarrow> real option" where
  "py_num (JInt i) = Some (of_int i)"
| "py_num (JBool b) = Some (if b then 1 else 0)"
| "py_num (JFloat x) = Some x"
| "py_num _ = None"

text \<open>
  \<^verbatim>\<open>a == b\<close>: numbers by value, strings and \<^verbatim>\<open>None\<close> by identity of content, lists
  element by element, dicts key by key; values of different kinds are unequal.
\<close>

lemma size_elem: "x \<in> set xs \<Longrightarrow> size x < size (JArr xs)"
  by (induction xs) auto

lemma size_value: "kv \<in> set kvs \<Longrightarrow> size (snd kv) < size (JObj kvs)"
  by (induction kvs) auto

function py_eq :: "json \<Rightarrow> json \<Rightarrow> bool" where
  "py_eq a b =
     (case (py_num a, py_num b) of
        (Some x, Some y) \<Rightarrow> x = y
      | (None, None) \<Rightarrow>
          (case (a, b) of
             (JNull, JNull) \<Rightarrow> True
           | (JStr s, JStr t) \<Rightarrow> s = t
           | (JArr xs, JArr ys) \<Rightarrow> list_all2 py_eq xs ys
           | (JObj kvs, JObj kws) \<Rightarrow>
               length kvs = length kws \<and>
               list_all (\<lambda>kv. case map_of kws (fst kv) of
                                None \<Rightarrow> False
                              | Some w \<Rightarrow> py_eq (snd kv) w) kvs
           | _ \<Rightarrow> False)
      | _ \<Rightarrow> False)"
  by pat_completeness auto
termination
  by (relation "measure (\<lambda>(a, b). size a)") (use size_elem size_value in auto)

declare py_eq.simps [simp del]

text \<open>
  \<^verbatim>\<open>a < b\<close>: defined between two numbers, two strings and two lists (decided at the
  first pair of unequal elements, else by length); TypeError otherwise.
\<close>

fun py_lt :: "json \<Rightarrow> json \<Rightarrow> pyerr + bool" where
  "py_lt (JArr []) (JArr ys) = Inr (ys \<noteq> [])"
| "py_lt (JArr (x # xs)) (JArr []) = Inr False"
| "py_lt (JArr (x # xs)) (JArr (y # ys)) =
     (if py_eq x y then py_lt (JArr xs) (JArr ys) else py_lt x y)"
| "py_lt (JStr s) (JStr t) = Inr (s < t)"
| "py_lt a b =
     (case (py_num a, py_num b) of
        (Some x, Some y) \<Rightarrow> Inr (x < y)
      | _ \<Rightarrow> Inl TypeError)"

text \<open>
  \<^verbatim>\<open>key(a) < key(b)\<close> for the key \<^verbatim>\<open>(x['fontSize'], x['color'], x['fontWeight'])\<close>:
  a tuple comparison looks for the first component that is not equal and compares that
  one.
\<close>

definition key_lt :: "style_def \<Rightarrow> style_def \<Rightarrow> pyerr + bool" where
  "key_lt a b =
     (if fontSize a \<noteq> fontSize b then Inr (fontSize a < fontSize b)
      else if color a \<noteq> color b then Inr (color a < color b)
      else if py_eq (fontWeight a) (fontWeight b) then Inr False
      else py_lt (fontWeight a) (fontWeight b))"

text \<open>
  \<^verbatim>\<open>sorted(text_styles, key=...)\<close> as a stable insertion sort that uses \<^verbatim>\<open><\<close> on the
  keys only and raises what a comparison raises. Python's sort is another stable
  algorithm; where every comparison succeeds the stable ascending arrangement is the
  same for both.
\<close>

fun insort_style :: "style_def \<Rightarrow> style_def list \<Rightarrow> pyerr + style_def list" where
  "insort_style x [] = Inr [x]"
| "insort_style x (y # ys) =
     (case key_lt y x of Inl e \<Rightarrow> Inl e
      | Inr lt \<Rightarrow>
          if lt then (case insort_style x ys of Inl e \<Rightarrow> Inl e | Inr zs \<Rightarrow> Inr (y # zs))
          else Inr (x # y # ys))"

fun sorted_styles :: "style_def list \<Rightarrow> pyerr + style_def list" where
  "sorted_styles [] = Inr []"
| "sorted_styles (x # xs) =
     (case sorted_styles xs of Inl e \<Rightarrow> Inl e | Inr ys \<Rightarrow> insort_style x ys)"

definition fallback_fonts :: "string list" where
  "fallback_fonts = [''Open Sans'', ''Roboto'', ''Noto Sans'']"

definition dart_header :: "script \<Rightarrow> string" where
  "dart_header sc =
     ''import 'package:flutter/material.dart';\<newline>''
     @ ''import 'package:flutter_screenutil/flutter_screenutil.dart';\<newline>''
     @ (case sc of
          Main_py \<Rightarrow> ''import 'package:screnzo85_app/gen/colors.gen.dart';\<newline>''
        | By_id_py \<Rightarrow> ''import 'package:your_app_name/gen/colors.gen.dart';\<newline>'')
     @ ''\<newline>class TextFontStyle {\<newline>  TextFontStyle._();\<newline>\<newline>''
     @ (case sc of
          Main_py \<Rightarrow> []
        | By_id_py \<Rightarrow>
            ''  // Fallback Fonts\<newline>  static const fallbackFonts = [\<newline>''
            @ concat (map (\<lambda>font. ''    '' @ [CHR 0x27] @ font @ [CHR 0x27] @ '',\<newline>'')
                          fallback_fonts)
            @ ''  ];\<newline>\<newline>'')"

definition style_block :: "script \<Rightarrow> builtins \<Rightarrow> style_def \<Rightarrow> string" where
  \<open>style_block sc py style =
     ''  static final '' @ name style @ '' = TextStyle(\<newline>''
     @ ''    fontFamily: "'' @ fontFamily style @ ''",\<newline>''
     @ (case sc of Main_py \<Rightarrow> [] | By_id_py \<Rightarrow> ''    fontFamilyFallback: fallbackFonts,\<newline>'')
     @ ''    color: AppColors.c'' @ color style @ '',\<newline>''
     @ ''    fontSize: '' @ show_int (fontSize style) @ ''.sp,\<newline>''
     @ ''    fontWeight: FontWeight.w'' @ py_str py (fontWeight style) @ '',\<newline>''
     @ ''  );\<newline>\<newline>''\<close>

text \<open>
  The text \<^verbatim>\<open>save_text_styles_dart\<close> writes to \<^verbatim>\<open>text_font_style.dart\<close>, or the
  exception of the sort.
\<close>

definition save_text_styles_dart :: "script \<Rightarrow> builtins \<Rightarrow> style_def list \<Rightarrow> pyerr + string" where
  "save_text_styles_dart sc py styles =
     (case sorted_styles styles of Inl e \<Rightarrow> Inl e
      | Inr sorted_list \<Rightarrow>
          Inr (dart_header sc @ concat (map (style_block sc py) sorted_list) @ ''}\<newline>''))"

section \<open>Pipeline driver\<close>

text \<open>
  What \<^verbatim>\<open>requests.get\<close> hands back: an exception of the transport, or a response with
  its status, its text and, when the text is JSON, the value \<^verbatim>\<open>response.json()\<close>
  returns (it raises a ValueError otherwise).
\<close>

record response =
  status_code :: int
  resp_text :: string
  resp_json :: "json option"

text \<open>
  What a run leaves behind: the failure and fallback messages it printed (progress
  lines are left out), the files it wrote, in order, and the exception that ended it,
  if one did. Writing a file is taken to succeed.
\<close>

datatype message =
    Fetch_failed string
  | Used_single_node string
  | Node_not_found string "string list"
  | Document_not_found string

record run =
  messages :: "message list"
  files :: "(string \<times> string) list"
  raised :: "pyerr option"

definition COLORS_OUTPUT :: string where
  "COLORS_OUTPUT = ''colors.xml''"

definition TEXTSTYLES_OUTPUT :: string where
  "TEXTSTYLES_OUTPUT = ''text_font_style.dart''"

text \<open>
  The end of both drivers: \<^verbatim>\<open>save_colors_xml(colors)\<close>, then
  \<^verbatim>\<open>save_text_styles_dart(text_styles)\<close>.
\<close>

definition save_outputs :: "script \<Rightarrow> builtins \<Rightarrow> message list \<Rightarrow> walk_state \<Rightarrow> run" where
  "save_outputs sc py msgs st =
     (let colors_file = (COLORS_OUTPUT, save_colors_xml (colors st))
      in case save_text_styles_dart sc py (text_styles st) of
           Inl e \<Rightarrow> \<lparr>messages = msgs, files = [colors_file], raised = Some e\<rparr>
         | Inr dart \<Rightarrow>
             \<lparr>messages = msgs, files = [colors_file, (TEXTSTYLES_OUTPUT, dart)],
              raised = None\<rparr>)"

definition walk_and_save :: "script \<Rightarrow> builtins \<Rightarrow> message list \<Rightarrow> json \<Rightarrow> run" where
  "walk_and_save sc py msgs root_node =
     (case parse_node sc py root_node init_state of
        Inl e \<Rightarrow> \<lparr>messages = msgs, files = [], raised = Some e\<rparr>
      | Inr st \<Rightarrow> save_outputs sc py msgs st)"

text \<open>\<^verbatim>\<open>process_figma_file\<close> of \<^verbatim>\<open>main.py\<close>, on the outcome of the one request.\<close>

definition process_figma_file :: "builtins \<Rightarrow> pyerr + response \<Rightarrow> run" where
  "process_figma_file py got =
     (case got of
        Inl e \<Rightarrow> \<lparr>messages = [], files = [], raised = Some e\<rparr>
      | Inr response \<Rightarrow>
          if status_code response \<noteq> 200 then
            \<lparr>messages = [Fetch_failed (resp_text response)], files = [], raised = None\<rparr>
          else
            (case resp_json response of
               None \<Rightarrow> \<lparr>messages = [], files = [], raised = Some ValueError\<rparr>
             | Some figma_data \<Rightarrow>
                 (case py_getitem figma_data ''document'' of
                    Inl e \<Rightarrow> \<lparr>messages = [], files = [], raised = Some e\<rparr>
                  | Inr document \<Rightarrow> walk_and_save Main_py py [] document)))"

text \<open>
  The part of \<^verbatim>\<open>process_figma_file\<close> of
  \<^verbatim>\<open>import_colors_and_text_font_styles_by_id.py\<close> that follows the choice of
  \<^verbatim>\<open>target_node_data\<close>.
\<close>

definition process_target :: "builtins \<Rightarrow> string \<Rightarrow> message list \<Rightarrow> json \<Rightarrow> run" where
  "process_target py node_id msgs target_node_data =
     (case py_get target_node_data ''document'' JNull of
        Inl e \<Rightarrow> \<lparr>messages = msgs, files = [], raised = Some e\<rparr>
      | Inr root_node \<Rightarrow>
          if \<not> py_truthy root_node then
            \<lparr>messages = msgs @ [Document_not_found node_id], files = [], raised = None\<rparr>
          else walk_and_save By_id_py py msgs root_node)"

text \<open>
  The choice of the target: the entry under \<^verbatim>\<open>NODE_ID\<close>; when \<^verbatim>\<open>.get\<close> finds
  none, or finds a value that counts as false, the only entry of the mapping if it has
  exactly one, else the run ends with the keys printed.
\<close>

definition select_target :: "string \<Rightarrow> (string \<times> json) list \<Rightarrow> message list \<times> json option" where
  "select_target node_id nodes_map =
     (let target_node_data = (case map_of nodes_map node_id of None \<Rightarrow> JNull | Some v \<Rightarrow> v)
      in if \<not> py_truthy target_node_data then
           (case nodes_map of
              [(k, v)] \<Rightarrow> ([Used_single_node k], Some v)
            | _ \<Rightarrow> ([Node_not_found node_id (map fst nodes_map)], None))
         else ([], Some target_node_data))"

text \<open>
  \<^verbatim>\<open>process_figma_file\<close> of \<^verbatim>\<open>import_colors_and_text_font_styles_by_id.py\<close>, for
  the configured \<^verbatim>\<open>NODE_ID\<close> and the outcome of the one request.
\<close>

definition process_figma_file_by_id :: "builtins \<Rightarrow> string \<Rightarrow> pyerr + response \<Rightarrow> run" where
  "process_figma_file_by_id py node_id got =
     (case got of
        Inl e \<Rightarrow> \<lparr>messages = [], files = [], raised = Some e\<rparr>
      | Inr response \<Rightarrow>
          if status_code response \<noteq> 200 then
            \<lparr>messages = [Fetch_failed (resp_text response)], files = [], raised = None\<rparr>
          else
            (case resp_json response of
               None \<Rightarrow> \<lparr>messages = [], files = [], raised = Some ValueError\<rparr>
             | Some figma_data \<Rightarrow>
                 (case py_get figma_data ''nodes'' (JObj []) of
                    Inl e \<Rightarrow> \<lparr>messages = [], files = [], raised = Some e\<rparr>
                  | Inr (JObj nodes_map) \<Rightarrow>
                      (case select_target node_id nodes_map of
                         (msgs, None) \<Rightarrow> \<lparr>messages = msgs, files = [], raised = None\<rparr>
                       | (msgs, Some target_node_data) \<Rightarrow>
                           process_target py node_id msgs target_node_data)
                  | Inr _ \<Rightarrow> \<lparr>messages = [], files = [], raised = Some AttributeError\<rparr>)))"


section \<open>Notions used in the statements\<close>

text \<open>The synthetic tree of the end-to-end scenario, and the subtree under \<^verbatim>\<open>document\<close>.\<close>

definition scenario_document :: json where
  "scenario_document =
     JObj [(''children'', JArr
       [JObj [(''type'', JStr ''RECTANGLE''),
              (''fills'', JArr [JObj [(''type'', JStr ''SOLID''),
                 (''color'', JObj [(''r'', JInt 1), (''g'', JInt 0), (''b'', JInt 0)])]])],
        JObj [(''type'', JStr ''TEXT''),
              (''style'', JObj [(''fontFamily'', JStr ''Roboto''),
                 (''fontWeight'', JInt 700), (''fontSize'', JInt 16)]),
              (''fills'', JArr [JObj [(''type'', JStr ''SOLID''),
                 (''color'', JObj [(''r'', JInt 0), (''g'', JInt 0), (''b'', JInt 0)])]])]])]"

definition scenario_tree :: json where
  "scenario_tree = JObj [(''document'', scenario_document)]"

text \<open>
  Reading a string of upper-case hexadecimal digits back as a number, to state what
  the converters write.
\<close>

definition hex_digit_value :: "char \<Rightarrow> nat" where
  "hex_digit_value c = (let n = (of_char c :: nat) in if n \<le> 57 then n - 48 else n - 55)"

definition is_upper_hex :: "char \<Rightarrow> bool" where
  "is_upper_hex c = (c \<in> set ''0123456789ABCDEF'')"

definition hex_decode :: "string \<Rightarrow> nat" where
  "hex_decode s = foldl (\<lambda>a c. 16 * a + hex_digit_value c) 0 s"

text \<open>
  A value for the two built-in parameters, for the examples: none of them reaches a
  built-in.
\<close>

definition plain_builtins :: builtins where
  "plain_builtins = \<lparr>str_of = (\<lambda>v. ''?''), int_of_str = (\<lambda>s. None)\<rparr>"

text \<open>Example responses of the API.\<close>

definition single_entry_response :: response where
  "single_entry_response =
     \<lparr>status_code = 200, resp_text = [],
      resp_json = Some (JObj [(''nodes'', JObj [(''1:2'', JObj [(''document'', scenario_document)])])])\<rparr>"

definition two_entry_response :: response where
  "two_entry_response =
     \<lparr>status_code = 200, resp_text = [],
      resp_json = Some (JObj [(''nodes'', JObj [(''1:2'', JNull), (''1:3'', JNull)])])\<rparr>"

definition forbidden_response :: response where
  "forbidden_response = \<lparr>status_code = 403, resp_text = ''Forbidden'', resp_json = None\<rparr>"

definition no_document_response :: response where
  "no_document_response =
     \<lparr>status_code = 200, resp_text = [], resp_json = Some (JObj [(''name'', JStr ''file'')])\<rparr>"

definition no_subtree_response :: response where
  "no_subtree_response =
     \<lparr>status_code = 200, resp_text = [],
      resp_json = Some (JObj [(''nodes'', JObj [(''1:2'', JObj [(''components'', JObj [])])])])\<rparr>"

text \<open>
  The nodes the walker visits, in the order it visits them: a node, then each child
  with everything below it. A node whose children cannot be read has none here; the
  walker raises on it.
\<close>

function preorder :: "json \<Rightarrow> json list"
  and preorder_list :: "json list \<Rightarrow> json list"
where
  "preorder node = node # preorder_list (case children_of node of Inl e \<Rightarrow> [] | Inr cs \<Rightarrow> cs)"
| "preorder_list [] = []"
| "preorder_list (child # rest) = preorder child @ preorder_list rest"
  by pat_completeness auto
termination
proof (relation "measures
    [\<lambda>x. case x of Inl node \<Rightarrow> dict_size node | Inr cs \<Rightarrow> sum_list (map dict_size cs),
     \<lambda>x. case x of Inl node \<Rightarrow> 1 | Inr cs \<Rightarrow> 2 * length cs]", goal_cases)
  case 1
  show ?case by simp
next
  case (2 node)
  show ?case
  proof (cases "children_of node")
    case (Inl e)
    then show ?thesis by auto
  next
    case (Inr cs)
    show ?thesis
    proof (cases "cs = []")
      case True
      with Inr show ?thesis by auto
    next
      case False
      with Inr show ?thesis using children_of_size by auto
    qed
  qed
next
  case (3 child rest)
  have "0 < sum_list (map dict_size rest) \<or> sum_list (map dict_size rest) = 0"
    by arith
  then show ?case by (auto simp del: sum_list_eq_0_iff)
next
  case (4 child rest)
  have "0 < dict_size child \<or> dict_size child = 0"
    by arith
  then show ?case by auto
qed


text \<open>
  The key of a style definition, as \<^verbatim>\<open>parse_node\<close> computes it from the fields, and the
  tuple of the same four components.
\<close>

definition entry_key :: "builtins \<Rightarrow> style_def \<Rightarrow> string" where
  "entry_key py d = style_key py (fontSize d) (color d) (fontWeight d) (sanitize (fontFamily d))"

definition entry_tuple :: "style_def \<Rightarrow> int \<times> string \<times> json \<times> string" where
  "entry_tuple d = (fontSize d, color d, fontWeight d, sanitize (fontFamily d))"

text \<open>
  The style definition a node contributes when it is a TEXT node, and the definitions of
  a whole tree in the order of the walk, before duplicates are dropped.
\<close>

definition own_entry :: "script \<Rightarrow> builtins \<Rightarrow> json \<Rightarrow> style_def list" where
  "own_entry sc py node =
     (case py_get node ''type'' JNull of
        Inl e \<Rightarrow> []
      | Inr t \<Rightarrow>
          if t = JStr ''TEXT'' then
            (case text_entry sc py node of Inl e \<Rightarrow> [] | Inr kd \<Rightarrow> [snd kd])
          else [])"

definition text_candidates :: "script \<Rightarrow> builtins \<Rightarrow> json \<Rightarrow> style_def list" where
  "text_candidates sc py tree = concat (map (own_entry sc py) (preorder tree))"

text \<open>What is left of a list when only the first element under each key is kept.\<close>

fun keep_first :: "('a \<Rightarrow> 'k) \<Rightarrow> 'k set \<Rightarrow> 'a list \<Rightarrow> 'a list" where
  "keep_first key seen [] = []"
| "keep_first key seen (x # xs) =
     (if key x \<in> seen then keep_first key seen xs
      else x # keep_first key (insert (key x) seen) xs)"

text \<open>Example trees.\<close>

definition text_node :: "string \<Rightarrow> json" where
  "text_node family =
     JObj [(''type'', JStr ''TEXT''),
           (''style'', JObj [(''fontFamily'', JStr family), (''fontWeight'', JInt 400),
                            (''fontSize'', JInt 14)])]"


definition bare_text_node :: json where
  "bare_text_node = JObj [(''type'', JStr ''TEXT'')]"








definition regular_style :: style_def where
  "regular_style = \<lparr>name = ''text14c000000w400Roboto'', fontFamily = ''Roboto'',
     color = ''000000'', fontSize = 14, fontWeight = JInt 400\<rparr>"

definition inter_style :: style_def where
  "inter_style = \<lparr>name = ''text14c000000w400Inter'', fontFamily = ''Inter'',
     color = ''000000'', fontSize = 14, fontWeight = JInt 400\<rparr>"

text \<open>Decimal digits, and reading a string of them back as a number.\<close>

definition is_digit :: "char \<Rightarrow> bool" where
  "is_digit c = (c \<in> set ''0123456789'')"

definition digit_value :: "char \<Rightarrow> nat" where
  "digit_value c = of_char c - 48"

definition read_nat :: "string \<Rightarrow> nat" where
  "read_nat s = foldl (\<lambda>a c. 10 * a + digit_value c) 0 s"

text \<open>The characters \<^verbatim>\<open>{:02X}\<close> can produce: upper-case hexadecimal digits and the sign.\<close>

definition is_color_char :: "char \<Rightarrow> bool" where
  "is_color_char c = (is_upper_hex c \<or> c = CHR ''-'')"

text \<open>
  How many entries of a list carry a given tuple; a style whose weight is an integer;
  and a style whose weight is an integer of three decimal digits and, in the by-id
  script, whose colour has six characters.
\<close>

definition tuple_count :: "int \<times> string \<times> json \<times> string \<Rightarrow> style_def list \<Rightarrow> nat" where
  "tuple_count t ds = length (filter (\<lambda>e. entry_tuple e = t) ds)"

definition int_weight :: "style_def \<Rightarrow> bool" where
  "int_weight d = (case fontWeight d of JInt w \<Rightarrow> True | _ \<Rightarrow> False)"

definition name_safe :: "script \<Rightarrow> style_def \<Rightarrow> bool" where
  "name_safe sc d =
     ((case fontWeight d of JInt w \<Rightarrow> 100 \<le> w \<and> w \<le> 999 | _ \<Rightarrow> False)
      \<and> (sc = By_id_py \<longrightarrow> length (color d) = 6))"

text \<open>More example trees and the styles they give.\<close>

definition weighted_text_node :: "string \<Rightarrow> json \<Rightarrow> json" where
  "weighted_text_node family weight =
     JObj [(''type'', JStr ''TEXT''),
           (''style'', JObj [(''fontFamily'', JStr family), (''fontWeight'', weight),
                            (''fontSize'', JInt 14)])]"

definition mixed_weight_tree :: json where
  "mixed_weight_tree =
     JObj [(''children'', JArr [weighted_text_node ''XY'' (JStr ''400''),
                               weighted_text_node ''XY'' (JInt 400),
                               weighted_text_node ''XY'' (JInt 400)])]"

definition string_weight_style :: style_def where
  "string_weight_style = \<lparr>name = ''text14c000000w400XY'', fontFamily = ''XY'',
     color = ''000000'', fontSize = 14, fontWeight = JStr ''400''\<rparr>"

definition int_weight_style :: style_def where
  "int_weight_style = \<lparr>name = ''text14c000000w400XY'', fontFamily = ''XY'',
     color = ''000000'', fontSize = 14, fontWeight = JInt 400\<rparr>"

definition two_fonts_twice_tree :: json where
  "two_fonts_twice_tree =
     JObj [(''children'', JArr [text_node ''Roboto'', text_node ''Inter'', text_node ''Inter''])]"

definition name_clash_tree :: json where
  "name_clash_tree =
     JObj [(''children'', JArr [weighted_text_node ''0Roboto'' (JInt 40),
                               weighted_text_node ''Roboto'' (JInt 400)])]"

definition name_clash_tree_by_id :: json where
  "name_clash_tree_by_id =
     JObj [(''children'', JArr [weighted_text_node ''Exo 2'' (JInt 400),
                               weighted_text_node ''Exo'' (JInt 2400)])]"

definition clash_style_a :: style_def where
  "clash_style_a = \<lparr>name = ''text14c000000w400Roboto'', fontFamily = ''0Roboto'',
     color = ''000000'', fontSize = 14, fontWeight = JInt 40\<rparr>"

definition clash_style_b :: style_def where
  "clash_style_b = \<lparr>name = ''text14c000000w400Roboto'', fontFamily = ''Roboto'',
     color = ''000000'', fontSize = 14, fontWeight = JInt 400\<rparr>"

definition clash_style_c :: style_def where
  "clash_style_c = \<lparr>name = ''textStyle14c000000Exo2400'', fontFamily = ''Exo 2'',
     color = ''000000'', fontSize = 14, fontWeight = JInt 400\<rparr>"

definition clash_style_d :: style_def where
  "clash_style_d = \<lparr>name = ''textStyle14c000000Exo2400'', fontFamily = ''Exo'',
     color = ''000000'', fontSize = 14, fontWeight = JInt 2400\<rparr>"

section \<open>Evaluation rules\<close>

lemmas walker_defs =
  init_state_def extract_colors_def extract_text_style_def children_of_def text_entry_def
  parse_text_style_def text_style_body_def text_color_def rgb_to_hex_def rgba_to_hex_def
  rgba_channel_def fmt_02X_def hex_nat.simps show_int_def show_nat.simps digit_char_def
  sanitize_def is_word_def style_key_def

section \<open>End-to-end scenario\<close>

text \<open>
  Claim C1. The walker of either script, started at the \<^verbatim>\<open>document\<close> of the synthetic
  tree, ends with the colours \<^verbatim>\<open>cFF0000\<close> and \<^verbatim>\<open>c000000\<close>, mapped to \<^verbatim>\<open>#FF0000\<close>
  and \<^verbatim>\<open>#000000\<close>, and with exactly one text style: Roboto, weight 700, size 16,
  colour 000000.
\<close>

theorem scenario_walk:
  "py_getitem scenario_tree ''document'' = Inr scenario_document
   \<and> parse_node Main_py py scenario_document init_state =
       Inr \<lparr>colors = [(''cFF0000'', ''#FF0000''), (''c000000'', ''#000000'')],
            text_styles = [\<lparr>name = ''text16c000000w700Roboto'', fontFamily = ''Roboto'',
                             color = ''000000'', fontSize = 16, fontWeight = JInt 700\<rparr>],
            unique_styles = {''16_000000_700_Roboto''}\<rparr>
   \<and> parse_node By_id_py py scenario_document init_state =
       Inr \<lparr>colors = [(''cFF0000'', ''#FF0000''), (''c000000'', ''#000000'')],
            text_styles = [\<lparr>name = ''textStyle16c000000Roboto700'', fontFamily = ''Roboto'',
                             color = ''000000'', fontSize = 16, fontWeight = JInt 700\<rparr>],
            unique_styles = {''16_000000_700_Roboto''}\<rparr>"
  by (simp add: scenario_tree_def scenario_document_def walker_defs)

section \<open>Colour conversion\<close>

lemma py_round_near: "\<bar>real_of_int (py_round x) - x\<bar> \<le> 1 / 2"
  unfolding py_round_def Let_def by (auto simp: abs_le_iff)

lemma py_round_floor: "\<lfloor>x\<rfloor> \<le> py_round x \<and> py_round x \<le> \<lfloor>x\<rfloor> + 1"
  by (simp add: py_round_def Let_def)

lemma py_round_range:
  assumes "0 \<le> x" "x \<le> 255"
  shows "0 \<le> py_round x \<and> py_round x \<le> 255"
proof -
  have lo: "0 \<le> \<lfloor>x\<rfloor>" using assms by simp
  show ?thesis
  proof (cases "x = 255")
    case True
    then show ?thesis by (simp add: py_round_def)
  next
    case False
    with assms have "x < 255" by simp
    then have "\<lfloor>x\<rfloor> < 255" by (simp add: floor_less_iff)
    with lo py_round_floor [of x] show ?thesis by linarith
  qed
qed

lemma digit_char_hex:
  "d < 16 \<Longrightarrow> is_upper_hex (digit_char d) \<and> hex_digit_value (digit_char d) = d"
proof -
  have "\<forall>d<16. is_upper_hex (digit_char d) \<and> hex_digit_value (digit_char d) = d"
    by (simp add: eval_nat_numeral All_less_Suc digit_char_def hex_digit_value_def is_upper_hex_def)
  then show "d < 16 \<Longrightarrow> ?thesis" by blast
qed

lemma fmt_02X_byte:
  assumes "0 \<le> i" "i < 256"
  shows "fmt_02X i = [digit_char (nat i div 16), digit_char (nat i mod 16)]"
proof (cases "nat i < 16")
  case True
  then show ?thesis using assms by (simp add: fmt_02X_def hex_nat.simps digit_char_def)
next
  case False
  moreover have "nat i div 16 < 16" using assms by auto
  ultimately show ?thesis using assms
    by (simp add: fmt_02X_def hex_nat.simps [of "nat i"] hex_nat.simps [of "nat i div 16"])
qed

lemma fmt_02X_decode:
  assumes "0 \<le> i" "i < 256"
  shows "length (fmt_02X i) = 2 \<and> list_all is_upper_hex (fmt_02X i)
         \<and> int (hex_decode (fmt_02X i)) = i"
proof -
  have d: "nat i div 16 < 16" "nat i mod 16 < 16" using assms by auto
  from digit_char_hex [OF d(1)] digit_char_hex [OF d(2)] show ?thesis
    using assms by (simp add: fmt_02X_byte hex_decode_def)
qed

lemma round_255_unit:
  assumes "py_num v = Some x" "0 \<le> x" "x \<le> 1"
  shows "\<exists>i. round_255 v = Inr i \<and> 0 \<le> i \<and> i < 256 \<and> \<bar>real_of_int i / 255 - x\<bar> \<le> 1 / 255"
proof (cases v)
  case (JInt k)
  with assms have "k = 0 \<or> k = 1" by auto
  with JInt assms show ?thesis by auto
next
  case (JBool b)
  with assms show ?thesis by auto
next
  case (JFloat y)
  with assms have y: "y = x" by simp
  from assms have "0 \<le> x * 255" "x * 255 \<le> 255" by auto
  from py_round_range [OF this] have r: "0 \<le> py_round (x * 255)" "py_round (x * 255) < 256"
    by simp_all
  have "\<bar>real_of_int (py_round (x * 255)) / 255 - x\<bar> \<le> 1 / 255"
    using py_round_near [of "x * 255"] by linarith
  with r show ?thesis using JFloat y by simp
qed (use assms in auto)

text \<open>
  Claim C8. For channels that are numbers between 0 and 1, \<^verbatim>\<open>rgb_to_hex\<close> returns
  six upper-case hexadecimal characters, and each pair of characters, read back and
  divided by 255, is within 1/255 of its channel. Black is \<^verbatim>\<open>000000\<close> and white is
  \<^verbatim>\<open>FFFFFF\<close>.
\<close>

theorem rgb_to_hex_unit_range:
  "(\<forall>x y z. py_num r = Some x \<and> py_num g = Some y \<and> py_num b = Some z
        \<and> 0 \<le> x \<and> x \<le> 1 \<and> 0 \<le> y \<and> y \<le> 1 \<and> 0 \<le> z \<and> z \<le> 1 \<longrightarrow>
      (\<exists>s. rgb_to_hex r g b = Inr s \<and> length s = 6 \<and> list_all is_upper_hex s
         \<and> \<bar>real (hex_decode (take 2 s)) / 255 - x\<bar> \<le> 1 / 255
         \<and> \<bar>real (hex_decode (take 2 (drop 2 s))) / 255 - y\<bar> \<le> 1 / 255
         \<and> \<bar>real (hex_decode (drop 4 s)) / 255 - z\<bar> \<le> 1 / 255))
   \<and> rgb_to_hex (JInt 0) (JInt 0) (JInt 0) = Inr ''000000''
   \<and> rgb_to_hex (JInt 1) (JInt 1) (JInt 1) = Inr ''FFFFFF''
   \<and> rgb_to_hex (JFloat 0) (JFloat 0) (JFloat 0) = Inr ''000000''
   \<and> rgb_to_hex (JFloat 1) (JFloat 1) (JFloat 1) = Inr ''FFFFFF''"
proof (intro conjI allI impI)
  fix x y z
  assume h: "py_num r = Some x \<and> py_num g = Some y \<and> py_num b = Some z
        \<and> 0 \<le> x \<and> x \<le> 1 \<and> 0 \<le> y \<and> y \<le> 1 \<and> 0 \<le> z \<and> z \<le> 1"
  from h round_255_unit [of r x] obtain i where
    i: "round_255 r = Inr i" "0 \<le> i" "i < 256" "\<bar>real_of_int i / 255 - x\<bar> \<le> 1 / 255" by blast
  from h round_255_unit [of g y] obtain j where
    j: "round_255 g = Inr j" "0 \<le> j" "j < 256" "\<bar>real_of_int j / 255 - y\<bar> \<le> 1 / 255" by blast
  from h round_255_unit [of b z] obtain k where
    k: "round_255 b = Inr k" "0 \<le> k" "k < 256" "\<bar>real_of_int k / 255 - z\<bar> \<le> 1 / 255" by blast
  note di = fmt_02X_decode [OF i(2,3)] and dj = fmt_02X_decode [OF j(2,3)]
    and dk = fmt_02X_decode [OF k(2,3)]
  let ?s = "fmt_02X i @ fmt_02X j @ fmt_02X k"
  have eq: "rgb_to_hex r g b = Inr ?s" by (simp add: rgb_to_hex_def i j k)
  have ri: "real (hex_decode (fmt_02X i)) = real_of_int i"
    using di by (metis of_int_of_nat_eq)
  have rj: "real (hex_decode (fmt_02X j)) = real_of_int j"
    using dj by (metis of_int_of_nat_eq)
  have rk: "real (hex_decode (fmt_02X k)) = real_of_int k"
    using dk by (metis of_int_of_nat_eq)
  have "length ?s = 6" using di dj dk by simp
  moreover have "list_all is_upper_hex ?s" using di dj dk by simp
  moreover have "take 2 ?s = fmt_02X i" using di by simp
  moreover have "take 2 (drop 2 ?s) = fmt_02X j" using di dj by simp
  moreover have "drop 4 ?s = fmt_02X k" using di dj by simp
  ultimately show "\<exists>s. rgb_to_hex r g b = Inr s \<and> length s = 6 \<and> list_all is_upper_hex s
         \<and> \<bar>real (hex_decode (take 2 s)) / 255 - x\<bar> \<le> 1 / 255
         \<and> \<bar>real (hex_decode (take 2 (drop 2 s))) / 255 - y\<bar> \<le> 1 / 255
         \<and> \<bar>real (hex_decode (drop 4 s)) / 255 - z\<bar> \<le> 1 / 255"
    using eq ri rj rk i(4) j(4) k(4) by (intro exI [of _ ?s]) (simp only: simp_thms)
qed (simp_all add: rgb_to_hex_def fmt_02X_def hex_nat.simps digit_char_def py_round_def)

theorem rgb_to_hex_unit_range_witness:
  "rgb_to_hex (JFloat (1 / 2)) (JFloat (3 / 10)) (JInt 1) = Inr ''804CFF''
   \<and> (\<exists>s. rgb_to_hex (JFloat (1 / 2)) (JFloat (3 / 10)) (JInt 1) = Inr s \<and> length s = 6
        \<and> list_all is_upper_hex s
        \<and> \<bar>real (hex_decode (take 2 s)) / 255 - 1 / 2\<bar> \<le> 1 / 255
        \<and> \<bar>real (hex_decode (take 2 (drop 2 s))) / 255 - 3 / 10\<bar> \<le> 1 / 255
        \<and> \<bar>real (hex_decode (drop 4 s)) / 255 - 1\<bar> \<le> 1 / 255)"
proof
  show "rgb_to_hex (JFloat (1 / 2)) (JFloat (3 / 10)) (JInt 1) = Inr ''804CFF''"
    by (simp add: rgb_to_hex_def fmt_02X_def hex_nat.simps digit_char_def py_round_def)
  from rgb_to_hex_unit_range [of "JFloat (1 / 2)" "JFloat (3 / 10)" "JInt 1"]
  have "py_num (JFloat (1 / 2)) = Some (1 / 2) \<and> py_num (JFloat (3 / 10)) = Some (3 / 10)
        \<and> py_num (JInt 1) = Some 1
        \<and> (0::real) \<le> 1 / 2 \<and> (1::real) / 2 \<le> 1 \<and> (0::real) \<le> 3 / 10 \<and> (3::real) / 10 \<le> 1
        \<and> (0::real) \<le> 1 \<and> (1::real) \<le> 1 \<longrightarrow>
      (\<exists>s. rgb_to_hex (JFloat (1 / 2)) (JFloat (3 / 10)) (JInt 1) = Inr s \<and> length s = 6
        \<and> list_all is_upper_hex s
        \<and> \<bar>real (hex_decode (take 2 s)) / 255 - 1 / 2\<bar> \<le> 1 / 255
        \<and> \<bar>real (hex_decode (take 2 (drop 2 s))) / 255 - 3 / 10\<bar> \<le> 1 / 255
        \<and> \<bar>real (hex_decode (drop 4 s)) / 255 - 1\<bar> \<le> 1 / 255)"
    by blast
  then show "\<exists>s. rgb_to_hex (JFloat (1 / 2)) (JFloat (3 / 10)) (JInt 1) = Inr s \<and> length s = 6
        \<and> list_all is_upper_hex s
        \<and> \<bar>real (hex_decode (take 2 s)) / 255 - 1 / 2\<bar> \<le> 1 / 255
        \<and> \<bar>real (hex_decode (take 2 (drop 2 s))) / 255 - 3 / 10\<bar> \<le> 1 / 255
        \<and> \<bar>real (hex_decode (drop 4 s)) / 255 - 1\<bar> \<le> 1 / 255"
    by simp
qed


section \<open>Fetch and structure errors\<close>

lemma select_target_absent:
  assumes "map_of nodes_map node_id = None" and "length nodes_map \<noteq> 1"
  shows "select_target node_id nodes_map = ([Node_not_found node_id (map fst nodes_map)], None)"
proof (cases nodes_map)
  case Nil
  then show ?thesis by (simp add: select_target_def)
next
  case (Cons kv rest)
  with assms(2) obtain kv' rest' where "rest = kv' # rest'" by (cases rest) auto
  with Cons assms(1) show ?thesis
    by (cases kv) (simp add: select_target_def split: if_splits)
qed

text \<open>
  Claim C7. When the request fails, when the status is not a 2xx one, when the requested
  node is absent and cannot be resolved, or when the \<^verbatim>\<open>document\<close> field is missing,
  the run ends there and writes neither file.
\<close>

theorem fatal_errors_write_nothing:
  "(files (process_figma_file py (Inl e)) = []
      \<and> files (process_figma_file_by_id py node_id (Inl e)) = [])
   \<and> (status_code response < 200 \<or> 300 \<le> status_code response \<longrightarrow>
        process_figma_file py (Inr response) =
          \<lparr>messages = [Fetch_failed (resp_text response)], files = [], raised = None\<rparr>
        \<and> process_figma_file_by_id py node_id (Inr response) =
          \<lparr>messages = [Fetch_failed (resp_text response)], files = [], raised = None\<rparr>)
   \<and> (status_code response = 200 \<and> resp_json response = Some figma_data
        \<and> py_getitem figma_data ''document'' = Inl err \<longrightarrow>
        process_figma_file py (Inr response) = \<lparr>messages = [], files = [], raised = Some err\<rparr>)
   \<and> (status_code response = 200 \<and> resp_json response = Some figma_data
        \<and> py_get figma_data ''nodes'' (JObj []) = Inr (JObj nodes_map)
        \<and> map_of nodes_map node_id = None \<and> length nodes_map \<noteq> 1 \<longrightarrow>
        process_figma_file_by_id py node_id (Inr response) =
          \<lparr>messages = [Node_not_found node_id (map fst nodes_map)], files = [], raised = None\<rparr>)
   \<and> (status_code response = 200 \<and> resp_json response = Some figma_data
        \<and> py_get figma_data ''nodes'' (JObj []) = Inr (JObj nodes_map)
        \<and> select_target node_id nodes_map = (msgs, Some (JObj target))
        \<and> map_of target ''document'' = None \<longrightarrow>
        process_figma_file_by_id py node_id (Inr response) =
          \<lparr>messages = msgs @ [Document_not_found node_id], files = [], raised = None\<rparr>)"
proof (intro conjI impI)
  show "files (process_figma_file py (Inl e)) = []"
    by (simp add: process_figma_file_def)
  show "files (process_figma_file_by_id py node_id (Inl e)) = []"
    by (simp add: process_figma_file_by_id_def)
next
  assume "status_code response < 200 \<or> 300 \<le> status_code response"
  then have ne: "status_code response \<noteq> 200" by auto
  then show "process_figma_file py (Inr response) =
      \<lparr>messages = [Fetch_failed (resp_text response)], files = [], raised = None\<rparr>"
    by (simp add: process_figma_file_def)
  from ne show "process_figma_file_by_id py node_id (Inr response) =
      \<lparr>messages = [Fetch_failed (resp_text response)], files = [], raised = None\<rparr>"
    by (simp add: process_figma_file_by_id_def)
next
  assume "status_code response = 200 \<and> resp_json response = Some figma_data
        \<and> py_getitem figma_data ''document'' = Inl err"
  then show "process_figma_file py (Inr response) =
      \<lparr>messages = [], files = [], raised = Some err\<rparr>"
    by (simp add: process_figma_file_def)
next
  assume h: "status_code response = 200 \<and> resp_json response = Some figma_data
        \<and> py_get figma_data ''nodes'' (JObj []) = Inr (JObj nodes_map)
        \<and> map_of nodes_map node_id = None \<and> length nodes_map \<noteq> 1"
  then have "select_target node_id nodes_map =
      ([Node_not_found node_id (map fst nodes_map)], None)"
    by (simp add: select_target_absent)
  with h show "process_figma_file_by_id py node_id (Inr response) =
      \<lparr>messages = [Node_not_found node_id (map fst nodes_map)], files = [], raised = None\<rparr>"
    by (simp add: process_figma_file_by_id_def)
next
  assume "status_code response = 200 \<and> resp_json response = Some figma_data
        \<and> py_get figma_data ''nodes'' (JObj []) = Inr (JObj nodes_map)
        \<and> select_target node_id nodes_map = (msgs, Some (JObj target))
        \<and> map_of target ''document'' = None"
  then show "process_figma_file_by_id py node_id (Inr response) =
      \<lparr>messages = msgs @ [Document_not_found node_id], files = [], raised = None\<rparr>"
    by (simp add: process_figma_file_by_id_def process_target_def)
qed

theorem fatal_errors_write_nothing_witness:
  "files (process_figma_file plain_builtins (Inr forbidden_response)) = []
   \<and> files (process_figma_file_by_id plain_builtins ''1:2'' (Inr forbidden_response)) = []
   \<and> process_figma_file plain_builtins (Inr no_document_response) =
        \<lparr>messages = [], files = [], raised = Some KeyError\<rparr>
   \<and> process_figma_file_by_id plain_builtins ''1-2'' (Inr two_entry_response) =
        \<lparr>messages = [Node_not_found ''1-2'' [''1:2'', ''1:3'']], files = [], raised = None\<rparr>
   \<and> process_figma_file_by_id plain_builtins ''1:2'' (Inr no_subtree_response) =
        \<lparr>messages = [Document_not_found ''1:2''], files = [], raised = None\<rparr>"
proof (intro conjI)
  note a = fatal_errors_write_nothing [of plain_builtins ConnectionError "''1:2''" forbidden_response]
  from a show "files (process_figma_file plain_builtins (Inr forbidden_response)) = []"
    by (simp add: forbidden_response_def)
  from a show "files (process_figma_file_by_id plain_builtins ''1:2'' (Inr forbidden_response)) = []"
    by (simp add: forbidden_response_def)
  from fatal_errors_write_nothing [of plain_builtins ConnectionError "''1:2''" no_document_response
      "JObj [(''name'', JStr ''file'')]" KeyError]
  show "process_figma_file plain_builtins (Inr no_document_response) =
        \<lparr>messages = [], files = [], raised = Some KeyError\<rparr>"
    by (simp add: no_document_response_def)
  from fatal_errors_write_nothing [of plain_builtins ConnectionError "''1-2''" two_entry_response
      "JObj [(''nodes'', JObj [(''1:2'', JNull), (''1:3'', JNull)])]" KeyError
      "[(''1:2'', JNull), (''1:3'', JNull)]"]
  show "process_figma_file_by_id plain_builtins ''1-2'' (Inr two_entry_response) =
        \<lparr>messages = [Node_not_found ''1-2'' [''1:2'', ''1:3'']], files = [], raised = None\<rparr>"
    by (simp add: two_entry_response_def)
  from fatal_errors_write_nothing [of plain_builtins ConnectionError "''1:2''" no_subtree_response
      "JObj [(''nodes'', JObj [(''1:2'', JObj [(''components'', JObj [])])])]" KeyError
      "[(''1:2'', JObj [(''components'', JObj [])])]" "[]" "[(''components'', JObj [])]"]
  show "process_figma_file_by_id plain_builtins ''1:2'' (Inr no_subtree_response) =
        \<lparr>messages = [Document_not_found ''1:2''], files = [], raised = None\<rparr>"
    by (simp add: no_subtree_response_def select_target_def)
qed


lemma map_of_absent: "k \<notin> fst ` set kvs \<Longrightarrow> map_of kvs k = None"
  by (simp add: map_of_eq_None_iff)

text \<open>
  Claim C6. When the \<^verbatim>\<open>nodes\<close> mapping of a node-scoped response has no entry under
  the requested identifier: with exactly one entry the run goes on with that entry as
  its target; with none or several it ends with the message that lists all the keys,
  writes no file, and picks no entry.
\<close>

theorem node_fallback:
  assumes "status_code response = 200"
    and "resp_json response = Some figma_data"
    and "py_get figma_data ''nodes'' (JObj []) = Inr (JObj nodes_map)"
    and "node_id \<notin> fst ` set nodes_map"
  shows "(\<forall>k v. nodes_map = [(k, v)] \<longrightarrow>
            process_figma_file_by_id py node_id (Inr response) =
              process_target py node_id [Used_single_node k] v)
       \<and> (length nodes_map \<noteq> 1 \<longrightarrow>
            process_figma_file_by_id py node_id (Inr response) =
              \<lparr>messages = [Node_not_found node_id (map fst nodes_map)], files = [],
               raised = None\<rparr>)"
proof -
  from assms(4) have absent: "map_of nodes_map node_id = None" by (rule map_of_absent)
  have one: "select_target node_id [(k, v)] = ([Used_single_node k], Some v)"
    if "map_of [(k, v)] node_id = None" for k v
    using that by (simp add: select_target_def split: if_splits)
  have many: "select_target node_id nodes_map =
      ([Node_not_found node_id (map fst nodes_map)], None)" if "length nodes_map \<noteq> 1"
  proof (cases nodes_map)
    case Nil
    then show ?thesis by (simp add: select_target_def)
  next
    case (Cons kv rest)
    with that obtain kv' rest' where "rest = kv' # rest'" by (cases rest) auto
    with Cons absent show ?thesis
      by (cases kv) (simp add: select_target_def split: if_splits)
  qed
  show ?thesis
    using assms(1-3) absent one many
    by (auto simp: process_figma_file_by_id_def)
qed

theorem node_fallback_witness:
  "process_figma_file_by_id plain_builtins ''1-2'' (Inr single_entry_response) =
     process_target plain_builtins ''1-2'' [Used_single_node ''1:2''] (JObj [(''document'', scenario_document)])
   \<and> process_figma_file_by_id plain_builtins ''1-2'' (Inr two_entry_response) =
       \<lparr>messages = [Node_not_found ''1-2'' [''1:2'', ''1:3'']], files = [], raised = None\<rparr>"
proof
  have "process_figma_file_by_id plain_builtins ''1-2'' (Inr single_entry_response) =
     process_target plain_builtins ''1-2'' [Used_single_node ''1:2''] (JObj [(''document'', scenario_document)])"
    using node_fallback [of single_entry_response
        "JObj [(''nodes'', JObj [(''1:2'', JObj [(''document'', scenario_document)])])]"
        "[(''1:2'', JObj [(''document'', scenario_document)])]" "''1-2''" plain_builtins]
    by (simp add: single_entry_response_def)
  then show "process_figma_file_by_id plain_builtins ''1-2'' (Inr single_entry_response) =
     process_target plain_builtins ''1-2'' [Used_single_node ''1:2''] (JObj [(''document'', scenario_document)])" .
  show "process_figma_file_by_id plain_builtins ''1-2'' (Inr two_entry_response) =
       \<lparr>messages = [Node_not_found ''1-2'' [''1:2'', ''1:3'']], files = [], raised = None\<rparr>"
    using node_fallback [of two_entry_response
        "JObj [(''nodes'', JObj [(''1:2'', JNull), (''1:3'', JNull)])]"
        "[(''1:2'', JNull), (''1:3'', JNull)]" "''1-2''" plain_builtins]
    by (simp add: two_entry_response_def)
qed


section \<open>Deduplication of text styles\<close>

lemma keep_first_append:
  "keep_first key seen (xs @ ys) =
     keep_first key seen xs @ keep_first key (seen \<union> key ` set xs) ys"
  by (induction xs arbitrary: seen) (auto simp: insert_absorb)

lemma text_entry_key: "text_entry sc py node = Inr (k, d) \<Longrightarrow> k = entry_key py d"
  by (auto simp: text_entry_def entry_key_def split: prod.splits json.splits)

lemma extract_text_style_step:
  assumes "extract_text_style sc py node st = Inr st'"
  shows "text_styles st' =
           text_styles st @ keep_first (entry_key py) (unique_styles st) (own_entry sc py node)
         \<and> unique_styles st' = unique_styles st \<union> entry_key py ` set (own_entry sc py node)
         \<and> colors st' = colors st"
proof -
  from assms obtain t where t: "py_get node ''type'' JNull = Inr t"
    by (auto simp: extract_text_style_def split: sum.splits)
  show ?thesis
  proof (cases "t = JStr ''TEXT''")
    case False
    with assms t show ?thesis by (simp add: extract_text_style_def own_entry_def)
  next
    case True
    with assms t obtain k d where kd: "text_entry sc py node = Inr (k, d)"
      by (auto simp: extract_text_style_def split: sum.splits)
    then have k: "k = entry_key py d" by (rule text_entry_key)
    from True t kd have own: "own_entry sc py node = [d]" by (simp add: own_entry_def)
    from assms t True kd k show ?thesis
      by (auto simp: extract_text_style_def own split: if_splits)
  qed
qed

lemma walk_styles:
  "parse_node sc py node st = Inr st' \<Longrightarrow>
     text_styles st' =
       text_styles st
       @ keep_first (entry_key py) (unique_styles st) (concat (map (own_entry sc py) (preorder node)))
     \<and> unique_styles st' =
       unique_styles st \<union> entry_key py ` set (concat (map (own_entry sc py) (preorder node)))"
  and walk_styles_list:
  "parse_children sc py cs st = Inr st' \<Longrightarrow>
     text_styles st' =
       text_styles st
       @ keep_first (entry_key py) (unique_styles st)
           (concat (map (own_entry sc py) (preorder_list cs)))
     \<and> unique_styles st' =
       unique_styles st
       \<union> entry_key py ` set (concat (map (own_entry sc py) (preorder_list cs)))"
proof (induction sc py node st and sc py cs st arbitrary: st' and st'
    rule: parse_node_parse_children.induct)
  case (1 sc py node st)
  from "1.prems" obtain cols st1 cs where
    c: "extract_colors node (colors st) = Inr cols"
    and t: "extract_text_style sc py node (st\<lparr>colors := cols\<rparr>) = Inr st1"
    and ch: "children_of node = Inr cs"
    and rest: "parse_children sc py cs st1 = Inr st'"
    by (auto split: sum.splits)
  note ih = "1.IH" [OF c t ch rest]
  note step = extract_text_style_step [OF t]
  from ch have pre: "preorder node = node # preorder_list cs" by simp
  show ?case
    unfolding pre using ih step
    by (simp add: keep_first_append Un_assoc image_Un)
next
  case (2 sc py st)
  then show ?case by simp
next
  case (3 sc py child rest st)
  from "3.prems" obtain st1 where
    a: "parse_node sc py child st = Inr st1" and b: "parse_children sc py rest st1 = Inr st'"
    by (auto split: sum.splits)
  from "3.IH"(1) [OF a] "3.IH"(2) [OF a b] show ?case
    by (simp add: keep_first_append Un_assoc image_Un)
qed


lemma keep_first_keys: "key ` set (keep_first key seen xs) = key ` set xs - seen"
  by (induction xs arbitrary: seen) auto

lemma keep_first_distinct: "distinct (map key (keep_first key seen xs))"
proof (induction xs arbitrary: seen)
  case Nil
  show ?case by simp
next
  case (Cons x xs)
  have "key x \<notin> key ` set (keep_first key (insert (key x) seen) xs)"
    by (simp add: keep_first_keys)
  with Cons show ?case by simp
qed

lemma keep_first_none:
  "k \<in> seen \<Longrightarrow> filter (\<lambda>e. key e = k) (keep_first key seen xs) = []"
proof -
  assume "k \<in> seen"
  then have "k \<notin> key ` set (keep_first key seen xs)" by (simp add: keep_first_keys)
  then show ?thesis by (auto simp: filter_empty_conv)
qed

lemma keep_first_find:
  "find (\<lambda>c. key c = k) xs = Some d \<Longrightarrow> k \<notin> seen \<Longrightarrow>
     filter (\<lambda>e. key e = k) (keep_first key seen xs) = [d]"
proof (induction xs arbitrary: seen)
  case Nil
  then show ?case by simp
next
  case (Cons x xs)
  show ?case
  proof (cases "key x = k")
    case True
    with Cons.prems have "x = d" by simp
    with True Cons.prems(2) show ?thesis
      by (simp add: keep_first_none)
  next
    case False
    with Cons.prems have f: "find (\<lambda>c. key c = k) xs = Some d" by simp
    from False Cons.prems(2) have "k \<notin> insert (key x) seen" by auto
    from Cons.IH [OF f this] Cons.IH [OF f Cons.prems(2)] False show ?thesis by simp
  qed
qed

lemma find_first_index:
  "i < length xs \<Longrightarrow> \<exists>d. find (\<lambda>c. key c = key (xs ! i)) xs = Some d \<and> key d = key (xs ! i)"
proof -
  assume "i < length xs"
  then have "\<exists>x\<in>set xs. key x = key (xs ! i)" by auto
  then obtain d where "find (\<lambda>c. key c = key (xs ! i)) xs = Some d"
    by (cases "find (\<lambda>c. key c = key (xs ! i)) xs") (auto simp: find_None_iff)
  moreover from this have "key d = key (xs ! i)" by (auto dest: find_Some_iff [THEN iffD1])
  ultimately show ?thesis by blast
qed


lemma walk_from_init:
  assumes "parse_node sc py tree init_state = Inr st"
  shows "text_styles st = keep_first (entry_key py) {} (text_candidates sc py tree)"
  using walk_styles [OF assms] by (simp add: init_state_def text_candidates_def)

lemma walk_keeps_one:
  assumes "parse_node sc py tree init_state = Inr st"
    and "d \<in> set (text_candidates sc py tree)"
  shows "length (filter (\<lambda>e. entry_key py e = entry_key py d) (text_styles st)) = 1"
proof -
  from assms(2) obtain i where i: "i < length (text_candidates sc py tree)"
    and d: "text_candidates sc py tree ! i = d" by (auto simp: in_set_conv_nth)
  from find_first_index [OF i, of "entry_key py"] d obtain d0 where
    "find (\<lambda>c. entry_key py c = entry_key py d) (text_candidates sc py tree) = Some d0" by auto
  from keep_first_find [OF this, of "{}"] walk_from_init [OF assms(1)] show ?thesis by simp
qed






lemma own_entry_in_candidates:
  "node \<in> set (preorder tree) \<Longrightarrow> set (own_entry sc py node) \<subseteq> set (text_candidates sc py tree)"
  by (auto simp: text_candidates_def)

lemma no_style_fallback:
  "py_getitem node ''style'' = Inl e \<Longrightarrow>
     parse_text_style py node = (JStr ''FontNotFound'', JInt 400, 14, ''000000'')"
  by (simp add: parse_text_style_def text_style_body_def)

lemma no_style_entry:
  assumes "map_of kvs ''type'' = Some (JStr ''TEXT'')" and "map_of kvs ''style'' = None"
  shows "\<exists>d. own_entry sc py (JObj kvs) = [d]
           \<and> entry_key py d = ''14_000000_400_FontNotFound''
           \<and> fontFamily d = ''FontNotFound'' \<and> fontWeight d = JInt 400
           \<and> fontSize d = 14 \<and> color d = ''000000''"
proof -
  from assms(2) have "parse_text_style py (JObj kvs) =
      (JStr ''FontNotFound'', JInt 400, 14, ''000000'')"
    by (simp add: no_style_fallback)
  then have "text_entry sc py (JObj kvs) =
      Inr (''14_000000_400_FontNotFound'',
           \<lparr>name = style_name sc py 14 ''000000'' (JInt 400) ''FontNotFound'',
            fontFamily = ''FontNotFound'', color = ''000000'', fontSize = 14,
            fontWeight = JInt 400\<rparr>)"
    by (simp add: text_entry_def sanitize_def is_word_def style_key_def show_int_def
        show_nat.simps digit_char_def)
  with assms(1) show ?thesis
    by (simp add: own_entry_def entry_key_def sanitize_def is_word_def style_key_def
        show_int_def show_nat.simps digit_char_def)
qed

text \<open>
  Claim C5. \<^verbatim>\<open>parse_text_style\<close> returns a 4-tuple for every node: the tuple of the
  \<^verbatim>\<open>try\<close> body, or, when the body raises (as it does without a \<^verbatim>\<open>style\<close> field),
  the whole fallback tuple. A TEXT node without a \<^verbatim>\<open>style\<close> field in a tree the walker
  gets through leaves exactly one entry under the fallback key in the output list.
\<close>

theorem text_style_never_raises:
  "(\<exists>fam weight sz col. parse_text_style py node = (fam, weight, sz, col))
   \<and> (\<forall>e. text_style_body py node = Inl e \<longrightarrow>
         parse_text_style py node = (JStr ''FontNotFound'', JInt 400, 14, ''000000''))
   \<and> (\<forall>t. text_style_body py node = Inr t \<longrightarrow> parse_text_style py node = t)
   \<and> (\<forall>e. py_getitem node ''style'' = Inl e \<longrightarrow>
         parse_text_style py node = (JStr ''FontNotFound'', JInt 400, 14, ''000000''))
   \<and> (\<forall>tree st kvs.
         parse_node sc py tree init_state = Inr st \<and> JObj kvs \<in> set (preorder tree)
         \<and> map_of kvs ''type'' = Some (JStr ''TEXT'') \<and> map_of kvs ''style'' = None \<longrightarrow>
         parse_text_style py (JObj kvs) = (JStr ''FontNotFound'', JInt 400, 14, ''000000'')
         \<and> length (filter (\<lambda>d. entry_key py d = ''14_000000_400_FontNotFound'')
                     (text_styles st)) = 1)"
proof (intro conjI allI impI)
  show "\<exists>fam weight sz col. parse_text_style py node = (fam, weight, sz, col)"
    by (cases "parse_text_style py node") auto
next
  fix e assume "text_style_body py node = Inl e"
  then show "parse_text_style py node = (JStr ''FontNotFound'', JInt 400, 14, ''000000'')"
    by (simp add: parse_text_style_def)
next
  fix t assume "text_style_body py node = Inr t"
  then show "parse_text_style py node = t" by (simp add: parse_text_style_def)
next
  fix e assume "py_getitem node ''style'' = Inl e"
  then show "parse_text_style py node = (JStr ''FontNotFound'', JInt 400, 14, ''000000'')"
    by (rule no_style_fallback)
next
  fix tree st kvs
  assume h: "parse_node sc py tree init_state = Inr st \<and> JObj kvs \<in> set (preorder tree)
         \<and> map_of kvs ''type'' = Some (JStr ''TEXT'') \<and> map_of kvs ''style'' = None"
  then show "parse_text_style py (JObj kvs) = (JStr ''FontNotFound'', JInt 400, 14, ''000000'')"
    by (simp add: no_style_fallback)
  from h no_style_entry [of kvs sc py] obtain d where
    d: "own_entry sc py (JObj kvs) = [d]" "entry_key py d = ''14_000000_400_FontNotFound''"
    by auto
  from h d(1) own_entry_in_candidates [of "JObj kvs" tree sc py]
  have "d \<in> set (text_candidates sc py tree)" by auto
  from walk_keeps_one [OF _ this] h d(2)
  show "length (filter (\<lambda>d. entry_key py d = ''14_000000_400_FontNotFound'')
                     (text_styles st)) = 1"
    by simp
qed

lemma bare_text_walk:
  "parse_node Main_py plain_builtins bare_text_node init_state =
     Inr \<lparr>colors = [],
          text_styles = [\<lparr>name = ''text14c000000w400FontNotFound'',
                           fontFamily = ''FontNotFound'', color = ''000000'', fontSize = 14,
                           fontWeight = JInt 400\<rparr>],
          unique_styles = {''14_000000_400_FontNotFound''}\<rparr>"
  by (simp add: bare_text_node_def walker_defs)

theorem text_style_never_raises_witness:
  "parse_node Main_py plain_builtins bare_text_node init_state =
     Inr \<lparr>colors = [],
          text_styles = [\<lparr>name = ''text14c000000w400FontNotFound'',
                           fontFamily = ''FontNotFound'', color = ''000000'', fontSize = 14,
                           fontWeight = JInt 400\<rparr>],
          unique_styles = {''14_000000_400_FontNotFound''}\<rparr>
   \<and> parse_text_style plain_builtins bare_text_node =
       (JStr ''FontNotFound'', JInt 400, 14, ''000000'')
   \<and> length (filter (\<lambda>d. entry_key plain_builtins d = ''14_000000_400_FontNotFound'')
               [\<lparr>name = ''text14c000000w400FontNotFound'',
                 fontFamily = ''FontNotFound'', color = ''000000'', fontSize = 14,
                 fontWeight = JInt 400\<rparr>]) = 1"
proof -
  have pre: "JObj [(''type'', JStr ''TEXT'')] \<in> set (preorder bare_text_node)"
    by (simp add: bare_text_node_def)
  from text_style_never_raises [of plain_builtins bare_text_node Main_py]
  have "parse_node Main_py plain_builtins bare_text_node init_state =
          Inr \<lparr>colors = [],
               text_styles = [\<lparr>name = ''text14c000000w400FontNotFound'',
                                fontFamily = ''FontNotFound'', color = ''000000'', fontSize = 14,
                                fontWeight = JInt 400\<rparr>],
               unique_styles = {''14_000000_400_FontNotFound''}\<rparr>
        \<and> JObj [(''type'', JStr ''TEXT'')] \<in> set (preorder bare_text_node)
        \<and> map_of [(''type'', JStr ''TEXT'')] ''type'' = Some (JStr ''TEXT'')
        \<and> map_of [(''type'', JStr ''TEXT'')] ''style'' = None \<longrightarrow>
       parse_text_style plain_builtins (JObj [(''type'', JStr ''TEXT'')]) =
         (JStr ''FontNotFound'', JInt 400, 14, ''000000'')
       \<and> length (filter (\<lambda>d. entry_key plain_builtins d = ''14_000000_400_FontNotFound'')
            (text_styles \<lparr>colors = [],
               text_styles = [\<lparr>name = ''text14c000000w400FontNotFound'',
                                fontFamily = ''FontNotFound'', color = ''000000'', fontSize = 14,
                                fontWeight = JInt 400\<rparr>],
               unique_styles = {''14_000000_400_FontNotFound''}\<rparr>)) = 1"
    by blast
  with bare_text_walk pre show ?thesis
    by (simp add: bare_text_node_def)
qed

section \<open>Order of the rendered entries\<close>















section \<open>Numbers and colours as text\<close>

lemma digit_char_dec:
  "d < 10 \<Longrightarrow> is_digit (digit_char d) \<and> digit_value (digit_char d) = d"
proof -
  have "\<forall>d<10. is_digit (digit_char d) \<and> digit_value (digit_char d) = d"
    by (simp add: eval_nat_numeral All_less_Suc digit_char_def is_digit_def digit_value_def)
  then show "d < 10 \<Longrightarrow> ?thesis" by blast
qed

lemma show_nat_digits: "list_all is_digit (show_nat n) \<and> show_nat n \<noteq> []"
proof (induction n rule: show_nat.induct)
  case (1 n)
  show ?case
  proof (cases "n < 10")
    case True
    then show ?thesis by (simp add: show_nat.simps [of n] digit_char_dec)
  next
    case False
    have "n mod 10 < 10" by simp
    with False 1 show ?thesis by (simp add: show_nat.simps [of n] digit_char_dec)
  qed
qed

lemma read_show_nat: "read_nat (show_nat n) = n"
proof (induction n rule: show_nat.induct)
  case (1 n)
  show ?case
  proof (cases "n < 10")
    case True
    then show ?thesis by (simp add: show_nat.simps [of n] read_nat_def digit_char_dec)
  next
    case False
    have m: "n mod 10 < 10" by simp
    from False 1 have "read_nat (show_nat (n div 10)) = n div 10" by simp
    with False m show ?thesis
      by (simp add: show_nat.simps [of n] read_nat_def digit_char_dec)
  qed
qed

lemma show_nat_inj: "show_nat m = show_nat n \<Longrightarrow> m = n"
  by (metis read_show_nat)

lemma minus_not_digit: "\<not> is_digit CHR ''-''"
  by (simp add: is_digit_def)

lemma show_nat_no_minus: "hd (show_nat n) \<noteq> CHR ''-''"
proof -
  from show_nat_digits [of n] have "is_digit (hd (show_nat n))"
    by (cases "show_nat n") auto
  with minus_not_digit show ?thesis by auto
qed

lemma show_int_inj: "show_int i = show_int j \<Longrightarrow> i = j"
proof -
  assume e: "show_int i = show_int j"
  show "i = j"
  proof (cases "i < 0")
    case True
    show ?thesis
    proof (cases "j < 0")
      case True
      with \<open>i < 0\<close> e have "show_nat (nat (- i)) = show_nat (nat (- j))"
        by (simp add: show_int_def)
      then have "nat (- i) = nat (- j)" by (rule show_nat_inj)
      with True \<open>i < 0\<close> show ?thesis by simp
    next
      case False
      with \<open>i < 0\<close> e have "CHR ''-'' # show_nat (nat (- i)) = show_nat (nat j)"
        by (simp add: show_int_def)
      then have "hd (show_nat (nat j)) = CHR ''-''" by (metis list.sel(1))
      with show_nat_no_minus show ?thesis by blast
    qed
  next
    case False
    show ?thesis
    proof (cases "j < 0")
      case True
      with False e have "show_nat (nat i) = CHR ''-'' # show_nat (nat (- j))"
        by (simp add: show_int_def)
      then have "hd (show_nat (nat i)) = CHR ''-''" by (metis list.sel(1))
      with show_nat_no_minus show ?thesis by blast
    next
      case False
      with \<open>\<not> i < 0\<close> e have "show_nat (nat i) = show_nat (nat j)"
        by (simp add: show_int_def)
      then have "nat i = nat j" by (rule show_nat_inj)
      with False \<open>\<not> i < 0\<close> show ?thesis by simp
    qed
  qed
qed

lemma show_int_chars: "list_all (\<lambda>c. is_digit c \<or> c = CHR ''-'') (show_int i)"
  using show_nat_digits [of "nat i"] show_nat_digits [of "nat (- i)"]
  by (auto simp: show_int_def list_all_iff)

lemma split_at_separator:
  assumes "a @ u # r = a' @ u # r'" and "u \<notin> set a" and "u \<notin> set a'"
  shows "a = a' \<and> r = r'"
  using assms
proof (induction a arbitrary: a')
  case Nil
  then show ?case by (cases a') auto
next
  case (Cons x a)
  then show ?case by (cases a') auto
qed

lemma show_int_three: "100 \<le> w \<Longrightarrow> w \<le> 999 \<Longrightarrow> length (show_int w) = 3"
proof -
  assume a: "100 \<le> w" "w \<le> 999"
  then have n: "\<not> nat w < 10" "\<not> nat w div 10 < 10" "nat w div 10 div 10 < 10" by auto
  from a have "show_int w = show_nat (nat w)" by (simp add: show_int_def)
  also have "length \<dots> = 3"
    using n by (simp add: show_nat.simps [of "nat w"] show_nat.simps [of "nat w div 10"]
        show_nat.simps [of "nat w div 10 div 10"])
  finally show ?thesis .
qed


lemma color_char_not_sep:
  "is_color_char c \<Longrightarrow> c \<noteq> CHR ''_'' \<and> c \<noteq> CHR ''w'' \<and> c \<noteq> CHR ''c''"
  by (auto simp: is_color_char_def is_upper_hex_def)

lemma int_char_not_sep:
  "is_digit c \<or> c = CHR ''-'' \<Longrightarrow> c \<noteq> CHR ''_'' \<and> c \<noteq> CHR ''c''"
  by (auto simp: is_digit_def)

lemma show_int_no_sep: "CHR ''_'' \<notin> set (show_int i) \<and> CHR ''c'' \<notin> set (show_int i)"
  using show_int_chars [of i] int_char_not_sep by (auto simp: list_all_iff)

lemma color_no_sep:
  "list_all is_color_char s \<Longrightarrow>
     CHR ''_'' \<notin> set s \<and> CHR ''w'' \<notin> set s \<and> CHR ''c'' \<notin> set s"
  using color_char_not_sep by (auto simp: list_all_iff)

lemma hex_nat_chars: "list_all is_upper_hex (hex_nat n)"
proof (induction n rule: hex_nat.induct)
  case (1 n)
  show ?case
  proof (cases "n < 16")
    case True
    then show ?thesis by (simp add: hex_nat.simps [of n] digit_char_hex)
  next
    case False
    have "n mod 16 < 16" by simp
    with False 1 show ?thesis by (simp add: hex_nat.simps [of n] digit_char_hex)
  qed
qed

lemma fmt_02X_chars: "list_all is_color_char (fmt_02X i)"
proof -
  have z: "is_upper_hex CHR ''0''" by (simp add: is_upper_hex_def)
  have "list_all is_color_char (hex_nat n)" for n
    using hex_nat_chars [of n] by (auto simp: list_all_iff is_color_char_def)
  with z show ?thesis by (simp add: fmt_02X_def Let_def is_color_char_def)
qed

lemma rgba_to_hex_chars: "rgba_to_hex c = Inr s \<Longrightarrow> list_all is_color_char s"
  by (auto simp: rgba_to_hex_def fmt_02X_chars split: sum.splits)

lemma black_chars: "list_all is_color_char ''000000''"
  by (simp add: is_color_char_def is_upper_hex_def)

lemma text_color_chars: "text_color fills = Inr s \<Longrightarrow> list_all is_color_char s"
  using black_chars
  by (auto simp: text_color_def split: if_splits sum.splits option.splits
      dest: rgba_to_hex_chars)

lemma parse_text_style_color:
  assumes "parse_text_style py node = (fam, weight, sz, col)"
  shows "list_all is_color_char col"
proof (cases "text_style_body py node")
  case (Inl e)
  with assms have "col = ''000000''" by (simp add: parse_text_style_def)
  with black_chars show ?thesis by simp
next
  case (Inr t)
  with assms obtain fills where "text_color fills = Inr col"
    by (auto simp: parse_text_style_def text_style_body_def split: sum.splits)
  then show ?thesis by (rule text_color_chars)
qed

lemma text_entry_facts:
  assumes "text_entry sc py node = Inr (k, d)"
  shows "list_all is_color_char (color d)
       \<and> name d = style_name sc py (fontSize d) (color d) (fontWeight d) (sanitize (fontFamily d))"
proof -
  obtain fam weight sz col where p: "parse_text_style py node = (fam, weight, sz, col)"
    by (cases "parse_text_style py node") auto
  with assms obtain family where "fam = JStr family"
    and d: "d = \<lparr>name = style_name sc py sz col weight (sanitize family),
               fontFamily = family, color = col, fontSize = sz, fontWeight = weight\<rparr>"
    by (auto simp: text_entry_def split: json.splits)
  with parse_text_style_color [OF p] show ?thesis by simp
qed

lemma own_entry_source:
  assumes "d \<in> set (own_entry sc py node)"
  shows "\<exists>k. text_entry sc py node = Inr (k, d)"
proof (cases "py_get node ''type'' JNull")
  case (Inl e)
  with assms show ?thesis by (simp add: own_entry_def)
next
  case ty: (Inr ty)
  show ?thesis
  proof (cases "ty = JStr ''TEXT''")
    case False
    with assms ty show ?thesis by (simp add: own_entry_def)
  next
    case True
    show ?thesis
    proof (cases "text_entry sc py node")
      case (Inl e)
      with assms ty True show ?thesis by (simp add: own_entry_def)
    next
      case (Inr kd)
      with assms ty True have "snd kd = d" by (simp add: own_entry_def)
      with Inr show ?thesis by (cases kd) auto
    qed
  qed
qed

lemma candidate_facts:
  assumes "d \<in> set (text_candidates sc py tree)"
  shows "list_all is_color_char (color d)
       \<and> name d = style_name sc py (fontSize d) (color d) (fontWeight d) (sanitize (fontFamily d))"
proof -
  from assms obtain node where "d \<in> set (own_entry sc py node)"
    by (auto simp: text_candidates_def)
  then obtain k where "text_entry sc py node = Inr (k, d)"
    using own_entry_source by blast
  then show ?thesis by (rule text_entry_facts)
qed

lemma style_key_inj:
  assumes e: "style_key py s1 c1 (JInt w1) f1 = style_key py s2 c2 (JInt w2) f2"
    and c1: "list_all is_color_char c1" and c2: "list_all is_color_char c2"
  shows "s1 = s2 \<and> c1 = c2 \<and> w1 = w2 \<and> f1 = f2"
proof -
  from e have e1: "show_int s1 @ CHR ''_'' # (c1 @ CHR ''_'' # (show_int w1 @ CHR ''_'' # f1)) =
      show_int s2 @ CHR ''_'' # (c2 @ CHR ''_'' # (show_int w2 @ CHR ''_'' # f2))"
    by (simp add: style_key_def)
  from split_at_separator [OF e1] show_int_no_sep
  have a: "show_int s1 = show_int s2"
    and e2: "c1 @ CHR ''_'' # (show_int w1 @ CHR ''_'' # f1) =
             c2 @ CHR ''_'' # (show_int w2 @ CHR ''_'' # f2)" by auto
  from split_at_separator [OF e2] color_no_sep [OF c1] color_no_sep [OF c2]
  have b: "c1 = c2" and e3: "show_int w1 @ CHR ''_'' # f1 = show_int w2 @ CHR ''_'' # f2"
    by auto
  from split_at_separator [OF e3] show_int_no_sep
  have c: "show_int w1 = show_int w2" and d: "f1 = f2" by auto
  from a b c d show ?thesis by (auto dest: show_int_inj)
qed

lemma style_name_inj:
  assumes e: "style_name sc py s1 c1 (JInt w1) f1 = style_name sc py s2 c2 (JInt w2) f2"
    and c1: "list_all is_color_char c1" and c2: "list_all is_color_char c2"
    and w1: "100 \<le> w1" "w1 \<le> 999" and w2: "100 \<le> w2" "w2 \<le> 999"
    and l: "sc = By_id_py \<longrightarrow> length c1 = 6 \<and> length c2 = 6"
  shows "s1 = s2 \<and> c1 = c2 \<and> w1 = w2 \<and> f1 = f2"
proof (cases sc)
  case Main_py
  with e have e1: "show_int s1 @ CHR ''c'' # (c1 @ CHR ''w'' # (show_int w1 @ f1)) =
      show_int s2 @ CHR ''c'' # (c2 @ CHR ''w'' # (show_int w2 @ f2))"
    by simp
  from split_at_separator [OF e1] show_int_no_sep
  have a: "show_int s1 = show_int s2"
    and e2: "c1 @ CHR ''w'' # (show_int w1 @ f1) = c2 @ CHR ''w'' # (show_int w2 @ f2)" by auto
  from split_at_separator [OF e2] color_no_sep [OF c1] color_no_sep [OF c2]
  have b: "c1 = c2" and e3: "show_int w1 @ f1 = show_int w2 @ f2" by auto
  from show_int_three [OF w1] show_int_three [OF w2] e3
  have "show_int w1 = show_int w2 \<and> f1 = f2" by (simp add: append_eq_append_conv)
  with a b show ?thesis by (auto dest: show_int_inj)
next
  case By_id_py
  with e have e1: "show_int s1 @ CHR ''c'' # (c1 @ f1 @ show_int w1) =
      show_int s2 @ CHR ''c'' # (c2 @ f2 @ show_int w2)"
    by simp
  from split_at_separator [OF e1] show_int_no_sep
  have a: "show_int s1 = show_int s2"
    and e2: "c1 @ f1 @ show_int w1 = c2 @ f2 @ show_int w2" by auto
  from By_id_py l have "length c1 = length c2" by simp
  with e2 have b: "c1 = c2" and e3: "f1 @ show_int w1 = f2 @ show_int w2"
    by (simp_all add: append_eq_append_conv)
  from show_int_three [OF w1] show_int_three [OF w2] e3
  have "f1 = f2 \<and> show_int w1 = show_int w2" by (simp add: append_eq_append_conv)
  with a b show ?thesis by (auto dest: show_int_inj)
qed


section \<open>Keys, tuples and names\<close>

lemma keep_first_subset: "set (keep_first key seen xs) \<subseteq> set xs"
  by (induction xs arbitrary: seen) auto

lemma int_weight_key_tuple:
  assumes "int_weight a" and "int_weight b"
    and "list_all is_color_char (color a)" and "list_all is_color_char (color b)"
  shows "entry_key py a = entry_key py b \<longleftrightarrow> entry_tuple a = entry_tuple b"
proof
  assume "entry_tuple a = entry_tuple b"
  then show "entry_key py a = entry_key py b" by (simp add: entry_tuple_def entry_key_def)
next
  assume e: "entry_key py a = entry_key py b"
  from assms(1,2) obtain w1 w2 where w: "fontWeight a = JInt w1" "fontWeight b = JInt w2"
    by (auto simp: int_weight_def split: json.splits)
  from e w style_key_inj [OF _ assms(3,4), of py "fontSize a" w1 "sanitize (fontFamily a)"
      "fontSize b" w2 "sanitize (fontFamily b)"]
  show "entry_tuple a = entry_tuple b" by (simp add: entry_key_def entry_tuple_def)
qed

text \<open>
  Claim C4, as amended. When two TEXT nodes at different places of the tree give the
  same tuple (fontSize, color, fontWeight, sanitized font name), they give the same key
  and the output list of the walk has exactly one entry under that key. When the font
  weights of the tree are integers, the key determines the tuple, and the list has
  exactly one entry with that tuple.
\<close>

theorem duplicates_collapse:
  assumes "parse_node sc py tree init_state = Inr st"
    and "i < j" and "j < length (preorder tree)"
    and "own_entry sc py (preorder tree ! i) = [d1]"
    and "own_entry sc py (preorder tree ! j) = [d2]"
    and "entry_tuple d1 = entry_tuple d2"
  shows "entry_key py d2 = entry_key py d1
       \<and> length (filter (\<lambda>e. entry_key py e = entry_key py d1) (text_styles st)) = 1
       \<and> ((\<forall>d\<in>set (text_candidates sc py tree). int_weight d) \<longrightarrow>
            tuple_count (entry_tuple d1) (text_styles st) = 1)"
proof (intro conjI impI)
  from assms(6) show "entry_key py d2 = entry_key py d1"
    by (simp add: entry_tuple_def entry_key_def)
  from assms(2,3) have "i < length (preorder tree)" by (rule less_trans)
  then have "preorder tree ! i \<in> set (preorder tree)" by (rule nth_mem)
  from own_entry_in_candidates [OF this, of sc py] assms(4)
  have d1: "d1 \<in> set (text_candidates sc py tree)" by simp
  from walk_keeps_one [OF assms(1) this]
  show one: "length (filter (\<lambda>e. entry_key py e = entry_key py d1) (text_styles st)) = 1" .
  assume ints: "\<forall>d\<in>set (text_candidates sc py tree). int_weight d"
  have sub: "set (text_styles st) \<subseteq> set (text_candidates sc py tree)"
    using walk_from_init [OF assms(1)] keep_first_subset [of "entry_key py" "{}"] by simp
  have "filter (\<lambda>e. entry_tuple e = entry_tuple d1) (text_styles st) =
        filter (\<lambda>e. entry_key py e = entry_key py d1) (text_styles st)"
  proof (rule filter_cong [OF refl])
    fix e assume "e \<in> set (text_styles st)"
    with sub have e: "e \<in> set (text_candidates sc py tree)" by auto
    from int_weight_key_tuple [of e d1 py] ints e d1 candidate_facts [OF e] candidate_facts [OF d1]
    show "(entry_tuple e = entry_tuple d1) = (entry_key py e = entry_key py d1)" by simp
  qed
  with one show "tuple_count (entry_tuple d1) (text_styles st) = 1"
    by (simp add: tuple_count_def)
qed

lemma two_fonts_twice_walk:
  "parse_node Main_py plain_builtins two_fonts_twice_tree init_state =
     Inr \<lparr>colors = [], text_styles = [regular_style, inter_style],
          unique_styles = {''14_000000_400_Roboto'', ''14_000000_400_Inter''}\<rparr>"
  by (simp add: two_fonts_twice_tree_def text_node_def walker_defs regular_style_def
      inter_style_def insert_commute)

lemma two_fonts_twice_preorder:
  "preorder two_fonts_twice_tree =
     [two_fonts_twice_tree, text_node ''Roboto'', text_node ''Inter'', text_node ''Inter'']"
  by (simp add: two_fonts_twice_tree_def text_node_def children_of_def)

lemma two_fonts_entries:
  "own_entry Main_py plain_builtins (text_node ''Roboto'') = [regular_style]"
  "own_entry Main_py plain_builtins (text_node ''Inter'') = [inter_style]"
  "own_entry Main_py plain_builtins two_fonts_twice_tree = []"
  by (simp_all add: own_entry_def text_node_def two_fonts_twice_tree_def walker_defs
      regular_style_def inter_style_def)

lemma two_fonts_twice_candidates:
  "text_candidates Main_py plain_builtins two_fonts_twice_tree =
     [regular_style, inter_style, inter_style]"
  unfolding text_candidates_def two_fonts_twice_preorder by (simp add: two_fonts_entries)

theorem duplicates_collapse_witness:
  "tuple_count (entry_tuple inter_style) [regular_style, inter_style] = 1
   \<and> length (filter (\<lambda>e. entry_key plain_builtins e = entry_key plain_builtins inter_style)
        [regular_style, inter_style]) = 1"
proof -
  have i: "(2::nat) < 3" by simp
  have j: "3 < length (preorder two_fonts_twice_tree)"
    unfolding two_fonts_twice_preorder by simp
  have a: "own_entry Main_py plain_builtins (preorder two_fonts_twice_tree ! 2) = [inter_style]"
    unfolding two_fonts_twice_preorder by (simp add: two_fonts_entries)
  have b: "own_entry Main_py plain_builtins (preorder two_fonts_twice_tree ! 3) = [inter_style]"
    unfolding two_fonts_twice_preorder by (simp add: two_fonts_entries)
  have t: "entry_tuple inter_style = entry_tuple inter_style" by simp
  have w: "\<forall>d\<in>set (text_candidates Main_py plain_builtins two_fonts_twice_tree). int_weight d"
    by (simp add: two_fonts_twice_candidates int_weight_def regular_style_def inter_style_def)
  from duplicates_collapse [OF two_fonts_twice_walk i j a b t] w
  show ?thesis by simp
qed

theorem duplicates_collapse_counterexample:
  "parse_node Main_py plain_builtins mixed_weight_tree init_state =
     Inr \<lparr>colors = [], text_styles = [string_weight_style],
          unique_styles = {''14_000000_400_XY''}\<rparr>
   \<and> own_entry Main_py plain_builtins (preorder mixed_weight_tree ! 2) = [int_weight_style]
   \<and> own_entry Main_py plain_builtins (preorder mixed_weight_tree ! 3) = [int_weight_style]
   \<and> tuple_count (entry_tuple int_weight_style) [string_weight_style] = 0"
proof -
  have p: "preorder mixed_weight_tree =
     [mixed_weight_tree, weighted_text_node ''XY'' (JStr ''400''),
      weighted_text_node ''XY'' (JInt 400), weighted_text_node ''XY'' (JInt 400)]"
    by (simp add: mixed_weight_tree_def weighted_text_node_def children_of_def)
  have e: "own_entry Main_py plain_builtins (weighted_text_node ''XY'' (JInt 400)) =
      [int_weight_style]"
    by (simp add: own_entry_def weighted_text_node_def walker_defs int_weight_style_def)
  have w: "parse_node Main_py plain_builtins mixed_weight_tree init_state =
     Inr \<lparr>colors = [], text_styles = [string_weight_style],
          unique_styles = {''14_000000_400_XY''}\<rparr>"
    by (simp add: mixed_weight_tree_def weighted_text_node_def walker_defs
        string_weight_style_def)
  have c: "tuple_count (entry_tuple int_weight_style) [string_weight_style] = 0"
    by (simp add: tuple_count_def entry_tuple_def int_weight_style_def string_weight_style_def)
  from w c show ?thesis unfolding p by (simp add: e)
qed


lemma names_follow_keys:
  assumes a: "a \<in> set (text_candidates sc py tree)" and b: "b \<in> set (text_candidates sc py tree)"
    and sa: "name_safe sc a" and sb: "name_safe sc b"
    and n: "name a = name b"
  shows "entry_key py a = entry_key py b"
proof -
  from sa obtain w1 where w1: "fontWeight a = JInt w1" "100 \<le> w1" "w1 \<le> 999"
    by (auto simp: name_safe_def split: json.splits)
  from sb obtain w2 where w2: "fontWeight b = JInt w2" "100 \<le> w2" "w2 \<le> 999"
    by (auto simp: name_safe_def split: json.splits)
  from sa sb have l: "sc = By_id_py \<longrightarrow> length (color a) = 6 \<and> length (color b) = 6"
    by (simp add: name_safe_def)
  note fa = candidate_facts [OF a] and fb = candidate_facts [OF b]
  from n fa fb w1(1) w2(1)
  have "style_name sc py (fontSize a) (color a) (JInt w1) (sanitize (fontFamily a)) =
        style_name sc py (fontSize b) (color b) (JInt w2) (sanitize (fontFamily b))"
    by simp
  from style_name_inj [OF this _ _ w1(2,3) w2(2,3) l] fa fb w1(1) w2(1)
  show ?thesis by (simp add: entry_key_def)
qed

text \<open>
  Claim C2, as amended. When every font weight of the tree is an integer from 100 to
  999 (and, in the by-id script, every colour has six characters), two style
  definitions with different keys have different names, and no two entries of the output
  list have the same name.
\<close>

theorem names_follow_keys_when_safe:
  assumes "parse_node sc py tree init_state = Inr st"
    and "\<forall>d\<in>set (text_candidates sc py tree). name_safe sc d"
  shows "(\<forall>a\<in>set (text_candidates sc py tree). \<forall>b\<in>set (text_candidates sc py tree).
            entry_key py a \<noteq> entry_key py b \<longrightarrow> name a \<noteq> name b)
       \<and> distinct (map name (text_styles st))"
proof (intro conjI ballI impI)
  fix a b
  assume "a \<in> set (text_candidates sc py tree)" "b \<in> set (text_candidates sc py tree)"
    and "entry_key py a \<noteq> entry_key py b"
  with names_follow_keys [of a sc py tree b] assms(2) show "name a \<noteq> name b" by blast
next
  have out: "text_styles st = keep_first (entry_key py) {} (text_candidates sc py tree)"
    by (rule walk_from_init [OF assms(1)])
  have sub: "set (text_styles st) \<subseteq> set (text_candidates sc py tree)"
    unfolding out by (rule keep_first_subset)
  have dk: "distinct (map (entry_key py) (text_styles st))"
    unfolding out by (rule keep_first_distinct)
  have "inj_on name (set (text_styles st))"
  proof (rule inj_onI)
    fix a b
    assume ab: "a \<in> set (text_styles st)" "b \<in> set (text_styles st)" and n: "name a = name b"
    with sub assms(2) names_follow_keys [of a sc py tree b]
    have "entry_key py a = entry_key py b" by blast
    with dk ab show "a = b" by (auto simp: distinct_map dest: inj_onD)
  qed
  moreover from dk have "distinct (text_styles st)" by (simp add: distinct_map)
  ultimately show "distinct (map name (text_styles st))" by (simp add: distinct_map)
qed

theorem names_follow_keys_when_safe_witness:
  "distinct (map name [regular_style, inter_style])
   \<and> name regular_style \<noteq> name inter_style"
proof -
  have s: "\<forall>d\<in>set (text_candidates Main_py plain_builtins two_fonts_twice_tree).
      name_safe Main_py d"
    by (simp add: two_fonts_twice_candidates name_safe_def regular_style_def inter_style_def)
  have k: "entry_key plain_builtins regular_style \<noteq> entry_key plain_builtins inter_style"
    by (simp add: entry_key_def regular_style_def inter_style_def walker_defs)
  note r = names_follow_keys_when_safe [OF two_fonts_twice_walk s]
  from r have "distinct (map name [regular_style, inter_style])" by simp
  moreover from r k have "name regular_style \<noteq> name inter_style"
    by (simp add: two_fonts_twice_candidates)
  ultimately show ?thesis by simp
qed

theorem names_collide_counterexample:
  "parse_node Main_py plain_builtins name_clash_tree init_state =
     Inr \<lparr>colors = [], text_styles = [clash_style_a, clash_style_b],
          unique_styles = {''14_000000_40_0Roboto'', ''14_000000_400_Roboto''}\<rparr>
   \<and> entry_key plain_builtins clash_style_a = ''14_000000_40_0Roboto''
   \<and> entry_key plain_builtins clash_style_b = ''14_000000_400_Roboto''
   \<and> name clash_style_a = name clash_style_b
   \<and> parse_node By_id_py plain_builtins name_clash_tree_by_id init_state =
     Inr \<lparr>colors = [], text_styles = [clash_style_c, clash_style_d],
          unique_styles = {''14_000000_400_Exo2'', ''14_000000_2400_Exo''}\<rparr>
   \<and> entry_key plain_builtins clash_style_c = ''14_000000_400_Exo2''
   \<and> entry_key plain_builtins clash_style_d = ''14_000000_2400_Exo''
   \<and> name clash_style_c = name clash_style_d"
  by (simp add: name_clash_tree_def name_clash_tree_by_id_def weighted_text_node_def
      walker_defs clash_style_a_def clash_style_b_def clash_style_c_def clash_style_d_def
      entry_key_def insert_commute)


end
